theory Spec2Isabelle
  imports Complex_Main "HOL-Library.Char_ord" "HOL-Library.List_Lexorder"
begin

section \<open>The environment of the profiler scripts\<close>

text \<open>
  The scripts under \<^verbatim>\<open>profiler/\<close> act on files, on a pseudo-random generator, on the
  standard output and on external build processes.  Each of them is a field of one
  record that every operation takes and returns.

  A file system is a map from paths to nodes.  A regular file holds bytes; a read-only
  file makes \<^verbatim>\<open>open(file, "a")\<close> and \<^verbatim>\<open>open(file, "rb+")\<close> raise
  \<^verbatim>\<open>PermissionError\<close>; a directory makes them raise \<^verbatim>\<open>IsADirectoryError\<close>.  Both are
  subclasses of \<^verbatim>\<open>OSError\<close>, of which \<^verbatim>\<open>IOError\<close> is an alias, as
  \<^verbatim>\<open>FileNotFoundError\<close> is.
\<close>

type_synonym path = string

datatype exn =
    ValueError string
  | KeyError string
  | FileNotFoundError
  | PermissionError path
  | IsADirectoryError path
  | RuntimeError string
  | TypeError
  | SyntaxError
  | OverflowError
  | StatisticsError
  | SystemExit int
  | KeyboardInterrupt

fun is_IOError :: "exn \<Rightarrow> bool" where
  "is_IOError FileNotFoundError = True"
| "is_IOError (PermissionError p) = True"
| "is_IOError (IsADirectoryError p) = True"
| "is_IOError e = False"

text \<open>\<^verbatim>\<open>SystemExit\<close> and \<^verbatim>\<open>KeyboardInterrupt\<close> derive from \<^verbatim>\<open>BaseException\<close> only:
  an \<^verbatim>\<open>except Exception\<close> clause lets them pass.\<close>

fun is_Exception :: "exn \<Rightarrow> bool" where
  "is_Exception (SystemExit c) = False"
| "is_Exception KeyboardInterrupt = False"
| "is_Exception e = True"

datatype node = Regular "char list" | ReadOnly "char list" | Directory

text \<open>What the scripts print, one constructor for each \<^verbatim>\<open>print\<close> of the source.\<close>

datatype line =
    ErrorNotExist path
  | ErrorWriting path exn
  | ErrorReverting path exn
  | ErrorUnexpected exn
  | WarningSmaller path
  | BuildingWith string
  | ProcessOutput string
  | BuildTime string real
  | BuildOf string int int

text \<open>An external process that ran to completion: its exit status, what it wrote, and
  the difference of the two \<^verbatim>\<open>time.perf_counter()\<close> readings around it.\<close>

record completed =
  returncode :: int
  proc_stdout :: string
  elapsed :: real

record world =
  fs :: "path \<rightharpoonup> node"
  dirty_files :: "path set"
  stdout :: "line list"
  entropy :: "nat \<Rightarrow> nat"
  drawn :: nat
  subprocess_run :: "nat \<Rightarrow> exn + completed"
  launched :: "(string list \<times> string option) list"
  shutil_move :: "nat \<Rightarrow> exn option"
  moved :: "(path \<times> path) list"

definition print :: "line \<Rightarrow> world \<Rightarrow> world" where
  "print l w = w\<lparr>stdout := stdout w @ [l]\<rparr>"

section \<open>Strings and paths\<close>

definition newline :: string where
  "newline = [CHR 0x0A]"

text \<open>\<^verbatim>\<open>str.rfind\<close> of a single character: the last index where it stands, or -1.\<close>

fun rfind_from :: "char \<Rightarrow> string \<Rightarrow> int \<Rightarrow> int \<Rightarrow> int" where
  "rfind_from c [] i found = found"
| "rfind_from c (x # xs) i found = rfind_from c xs (i + 1) (if x = c then i else found)"

definition rfind :: "char \<Rightarrow> string \<Rightarrow> int" where
  "rfind c p = rfind_from c p 0 (- 1)"

text \<open>
  \<^verbatim>\<open>os.path.splitext\<close> of \<^verbatim>\<open>posixpath\<close>, that is \<^verbatim>\<open>genericpath._splitext(p, "/", None, ".")\<close>:
  the extension starts at the last dot, when that dot stands after the last slash and
  some character between the slash and the dot is not a dot (the \<^verbatim>\<open>while\<close> loop of
  \<^verbatim>\<open>_splitext\<close> looks for it).
\<close>

definition splitext :: "path \<Rightarrow> string \<times> string" where
  "splitext p =
     (let sepIndex = rfind CHR ''/'' p;
          dotIndex = rfind CHR ''.'' p
      in if dotIndex > sepIndex \<and>
            list_ex (\<lambda>c. c \<noteq> CHR ''.'')
              (take (nat (dotIndex - (sepIndex + 1))) (drop (nat (sepIndex + 1)) p))
         then (take (nat dotIndex) p, drop (nat dotIndex) p)
         else (p, []))"

definition lstrip :: "char \<Rightarrow> string \<Rightarrow> string" where
  "lstrip c s = dropWhile (\<lambda>x. x = c) s"

text \<open>\<^verbatim>\<open>str.lower\<close> on the letters A to Z; no other character below 256 becomes an
  ASCII letter, so membership in the template table is decided as in Python.\<close>

definition lower_char :: "char \<Rightarrow> char" where
  "lower_char c =
     (case map_of (zip ''ABCDEFGHIJKLMNOPQRSTUVWXYZ'' ''abcdefghijklmnopqrstuvwxyz'') c of
        Some l \<Rightarrow> l
      | None \<Rightarrow> c)"

definition lower :: "string \<Rightarrow> string" where
  "lower s = map lower_char s"

text \<open>\<^verbatim>\<open>str.encode("utf-8")\<close> for code points below 256: one byte below 128, two bytes
  from there.  A file opened in text mode on a POSIX system with a UTF-8 locale writes
  the same bytes, with no translation of the line ends.\<close>

definition encode_char :: "char \<Rightarrow> char list" where
  "encode_char c =
     (if (of_char c :: nat) < 128 then [c]
      else [char_of (192 + (of_char c :: nat) div 64), char_of (128 + (of_char c :: nat) mod 64)])"

definition encode_utf8 :: "string \<Rightarrow> char list" where
  "encode_utf8 s = concat (map encode_char s)"

section \<open>function\_kicker.py\<close>

definition KICK_MARKER :: string where
  "KICK_MARKER = ''_kicked_''"

definition FUNCTION_LENGTH :: nat where
  "FUNCTION_LENGTH = 100"

definition ascii_letters :: string where
  "ascii_letters = ''abcdefghijklmnopqrstuvwxyzABCDEFGHIJKLMNOPQRSTUVWXYZ''"

text \<open>The table \<^verbatim>\<open>__function_templates\<close>; a template is the function that
  \<^verbatim>\<open>template.format(marker=..., name=...)\<close> computes.\<close>

definition function_templates :: "string \<rightharpoonup> (string \<Rightarrow> string \<Rightarrow> string)" where
  "function_templates =
     [''py'' \<mapsto> (\<lambda>marker name. ''def _'' @ marker @ ''_'' @ name @ ''():'' @ newline @ ''    pass''),
      ''java'' \<mapsto> (\<lambda>marker name. ''public static void _'' @ marker @ ''_'' @ name @ ''() {}''),
      ''kt'' \<mapsto> (\<lambda>marker name. ''fun _'' @ marker @ ''_'' @ name @ ''() {}'')]"

text \<open>\<^verbatim>\<open>os.path.splitext(file)[1].lstrip(".")\<close>, which both methods compute.\<close>

definition file_ext :: "path \<Rightarrow> string" where
  "file_ext file = lstrip CHR ''.'' (snd (splitext file))"

definition validate_file_type :: "path \<Rightarrow> exn + unit" where
  "validate_file_type file =
     (let ext = file_ext file
      in if ext = [] then Inl (ValueError ''File must have an extension'')
         else if lower ext \<notin> dom function_templates
         then Inl (ValueError (''No function template defined for file extension: '' @ ext))
         else Inr ())"

text \<open>\<^verbatim>\<open>random.choices(population, k=k)\<close>: \<open>k\<close> draws, each an index into the population.
  The generator is the sequence \<open>entropy\<close>, read from position \<open>drawn\<close> on.\<close>

definition choices :: "'a list \<Rightarrow> nat \<Rightarrow> world \<Rightarrow> 'a list \<times> world" where
  "choices population k w =
     (map (\<lambda>i. population ! (entropy w (drawn w + i) mod length population)) [0..<k],
      w\<lparr>drawn := drawn w + k\<rparr>)"

definition generate_content :: "path \<Rightarrow> world \<Rightarrow> (exn + string) \<times> world" where
  "generate_content file w =
     (case validate_file_type file of
        Inl e \<Rightarrow> (Inl e, w)
      | Inr u \<Rightarrow>
          (let ext = lower (file_ext file)
           in case function_templates ext of
                None \<Rightarrow> (Inl (KeyError ext), w)
              | Some template \<Rightarrow>
                  (let (func_name, w') = choices ascii_letters FUNCTION_LENGTH w
                   in (Inr (template KICK_MARKER func_name), w'))))"

section \<open>base\_kicker.py\<close>

text \<open>The body of the \<^verbatim>\<open>try\<close> of \<^verbatim>\<open>_remove_appended_content\<close>.\<close>

definition remove_appended_body :: "path \<Rightarrow> world \<Rightarrow> (exn + unit) \<times> world" where
  "remove_appended_body file w =
     (case generate_content file w of
        (Inl e, w1) \<Rightarrow> (Inl e, w1)
      | (Inr sample_content, w1) \<Rightarrow>
          (let content_bytes_len = length (encode_utf8 newline) * 2 + length (encode_utf8 sample_content)
           in case fs w1 file of
                None \<Rightarrow> (Inl FileNotFoundError, w1)
              | Some Directory \<Rightarrow> (Inl (IsADirectoryError file), w1)
              | Some (ReadOnly bytes) \<Rightarrow> (Inl (PermissionError file), w1)
              | Some (Regular bytes) \<Rightarrow>
                  (let file_size = length bytes
                   in if file_size < content_bytes_len
                      then (Inr (), print (WarningSmaller file) w1)
                      else (Inr (), w1\<lparr>fs := (fs w1)(file \<mapsto>
                              Regular (take (file_size - content_bytes_len) bytes))\<rparr>))))"

definition remove_appended_content :: "path \<Rightarrow> world \<Rightarrow> (exn + unit) \<times> world" where
  "remove_appended_content file w =
     (case remove_appended_body file w of
        (Inr u, w1) \<Rightarrow> (Inr (), w1)
      | (Inl e, w1) \<Rightarrow>
          if e = FileNotFoundError then (Inr (), print (ErrorNotExist file) w1)
          else if is_IOError e then (Inr (), print (ErrorReverting file e) w1)
          else if is_Exception e then (Inr (), print (ErrorUnexpected e) w1)
          else (Inl e, w1))"

text \<open>The body of the \<^verbatim>\<open>try\<close> of \<^verbatim>\<open>_append_content\<close>; \<^verbatim>\<open>os.path.exists\<close> holds of
  every node.\<close>

definition append_body :: "path \<Rightarrow> string \<Rightarrow> world \<Rightarrow> (exn + unit) \<times> world" where
  "append_body file content w =
     (case fs w file of
        None \<Rightarrow> (Inl FileNotFoundError, w)
      | Some Directory \<Rightarrow> (Inl (IsADirectoryError file), w)
      | Some (ReadOnly bytes) \<Rightarrow> (Inl (PermissionError file), w)
      | Some (Regular bytes) \<Rightarrow>
          (Inr (), w\<lparr>fs := (fs w)(file \<mapsto> Regular (bytes @ encode_utf8 (newline @ content @ newline))),
                      dirty_files := insert file (dirty_files w)\<rparr>))"

definition append_content :: "path \<Rightarrow> string \<Rightarrow> world \<Rightarrow> (exn + unit) \<times> world" where
  "append_content file content w =
     (case (if file \<in> dirty_files w then remove_appended_content file w else (Inr (), w)) of
        (Inl e, w1) \<Rightarrow> (Inl e, w1)
      | (Inr u, w1) \<Rightarrow>
          (case append_body file content w1 of
             (Inr u', w2) \<Rightarrow> (Inr (), w2)
           | (Inl e, w2) \<Rightarrow>
               if e = FileNotFoundError then (Inl e, print (ErrorNotExist file) w2)
               else if is_IOError e then (Inl e, print (ErrorWriting file e) w2)
               else if is_Exception e then (Inl e, print (ErrorUnexpected e) w2)
               else (Inl e, w2)))"

definition append_file :: "path \<Rightarrow> world \<Rightarrow> (exn + unit) \<times> world" where
  "append_file file w =
     (case validate_file_type file of
        Inl e \<Rightarrow> (Inl e, w)
      | Inr u \<Rightarrow>
          (case generate_content file w of
             (Inl e, w1) \<Rightarrow> (Inl e, w1)
           | (Inr content, w1) \<Rightarrow> append_content file content w1))"

definition cleanup :: "path \<Rightarrow> world \<Rightarrow> (exn + unit) \<times> world" where
  "cleanup file w = remove_appended_content file w"

text \<open>\<^verbatim>\<open>KickerInterface.cleanup_all\<close>, over the files in the order the iterable gives them.\<close>

fun cleanup_all :: "path list \<Rightarrow> world \<Rightarrow> (exn + unit) \<times> world" where
  "cleanup_all [] w = (Inr (), w)"
| "cleanup_all (file # files) w =
     (case cleanup file w of
        (Inl e, w1) \<Rightarrow> (Inl e, w1)
      | (Inr u, w1) \<Rightarrow> cleanup_all files w1)"

text \<open>
  A Python set is iterated in an order that its hashes decide.  The order is the
  parameter \<open>iter\<close>: the list in which the set \<open>S\<close> is visited.  An iterator visits
  every element of the set once.
\<close>

definition iterates :: "('a set \<Rightarrow> 'a list) \<Rightarrow> 'a set \<Rightarrow> bool" where
  "iterates iter S \<longleftrightarrow> set (iter S) = S \<and> distinct (iter S)"

definition cleanup_all_dirty :: "(path set \<Rightarrow> path list) \<Rightarrow> world \<Rightarrow> (exn + unit) \<times> world" where
  "cleanup_all_dirty iter w =
     (case cleanup_all (iter (dirty_files w)) w of
        (Inl e, w1) \<Rightarrow> (Inl e, w1)
      | (Inr u, w1) \<Rightarrow> (Inr (), w1\<lparr>dirty_files := {}\<rparr>))"

section \<open>build\_script.py\<close>

text \<open>Running one statement after another: an exception ends the sequence.\<close>

definition bind_exn ::
  "(world \<Rightarrow> (exn + 'a) \<times> world) \<Rightarrow> ('a \<Rightarrow> world \<Rightarrow> (exn + 'b) \<times> world) \<Rightarrow>
   world \<Rightarrow> (exn + 'b) \<times> world" where
  "bind_exn m f w = (case m w of (Inl e, w1) \<Rightarrow> (Inl e, w1) | (Inr x, w1) \<Rightarrow> f x w1)"

text \<open>\<^verbatim>\<open>try: body finally: final\<close>.  The \<^verbatim>\<open>finally\<close> clause runs however the body ends;
  an exception of the clause replaces the outcome of the body, otherwise that outcome
  stands: the value, or the exception raised again.\<close>

definition try_finally ::
  "(world \<Rightarrow> (exn + 'a) \<times> world) \<Rightarrow> (world \<Rightarrow> (exn + unit) \<times> world) \<Rightarrow>
   world \<Rightarrow> (exn + 'a) \<times> world" where
  "try_finally body final w =
     (case body w of
        (r, w1) \<Rightarrow>
          (case final w1 of
             (Inl e, w2) \<Rightarrow> (Inl e, w2)
           | (Inr u, w2) \<Rightarrow> (r, w2)))"

record BuildSys =
  build_sys :: string
  invocation :: string
  working_dir :: "string option"

text \<open>
  \<^verbatim>\<open>BuildSys.execute\<close> with \<^verbatim>\<open>verbose=True\<close>, as \<^verbatim>\<open>build\<close> calls it.  The outcome of
  \<^verbatim>\<open>subprocess.run\<close> is read from the environment: the \<open>k\<close>-th call of a run gets
  \<open>subprocess_run w k\<close>, an exception (the program could not be started) or a
  completed process together with the time it took.  \<open>launched\<close> records the command
  and the working directory of every call.
\<close>

definition execute ::
  "BuildSys \<Rightarrow> string \<Rightarrow> string option \<Rightarrow> (string \<times> string) list option \<Rightarrow>
   world \<Rightarrow> (exn + completed) \<times> world" where
  "execute self cmd target args w =
     (let command =
            [invocation self] @
            (case args of None \<Rightarrow> [] | Some kvs \<Rightarrow> concat (map (\<lambda>(arg, val). [arg, val]) kvs)) @
            [cmd] @
            (case target of None \<Rightarrow> [] | Some t \<Rightarrow> if t = [] then [] else [t])
      in (subprocess_run w (length (launched w)),
          w\<lparr>launched := launched w @ [(command, working_dir self)]\<rparr>))"

definition build ::
  "BuildSys \<Rightarrow> string \<Rightarrow> string option \<Rightarrow> (string \<times> string) list option \<Rightarrow>
   world \<Rightarrow> (exn + real) \<times> world" where
  "build self build_cmd target args w =
     (case execute self build_cmd target args (print (BuildingWith (build_sys self)) w) of
        (Inl e, w1) \<Rightarrow> (Inl e, w1)
      | (Inr result, w1) \<Rightarrow>
          (let w2 = print (ProcessOutput (proc_stdout result)) w1
           in if returncode result \<noteq> 0
              then (Inl (RuntimeError (build_sys self @ '' build failed: '' @ proc_stdout result)), w2)
              else (Inr (elapsed result), print (BuildTime (build_sys self) (elapsed result)) w2)))"

text \<open>The loop of \<^verbatim>\<open>build_n_times\<close> over \<^verbatim>\<open>range(n)\<close>; the value of each \<^verbatim>\<open>build\<close> is
  dropped and the method returns \<^verbatim>\<open>None\<close>.\<close>

fun build_range ::
  "BuildSys \<Rightarrow> string \<Rightarrow> int \<Rightarrow> string option \<Rightarrow> (string \<times> string) list option \<Rightarrow>
   nat list \<Rightarrow> world \<Rightarrow> (exn + unit) \<times> world" where
  "build_range self build_cmd n target args [] w = (Inr (), w)"
| "build_range self build_cmd n target args (i # rest) w =
     (case build self build_cmd target args (print (BuildOf (build_sys self) (int i + 1) n) w) of
        (Inl e, w1) \<Rightarrow> (Inl e, w1)
      | (Inr t, w1) \<Rightarrow> build_range self build_cmd n target args rest w1)"

definition build_n_times ::
  "BuildSys \<Rightarrow> string \<Rightarrow> int \<Rightarrow> string option \<Rightarrow> (string \<times> string) list option \<Rightarrow>
   world \<Rightarrow> (exn + unit) \<times> world" where
  "build_n_times self build_cmd n target args w =
     build_range self build_cmd n target args [0..<nat n] w"

text \<open>\<^verbatim>\<open>sub in s\<close> on strings.\<close>

fun contains :: "string \<Rightarrow> string \<Rightarrow> bool" where
  "contains [] sub = (sub = [])"
| "contains (c # s) sub = (take (length sub) (c # s) = sub \<or> contains s sub)"

text \<open>\<^verbatim>\<open>shutil.move\<close> acts on the resource file only, which is no source file: the model
  records the call and reads from the environment whether it raises.\<close>

definition move :: "path \<Rightarrow> path \<Rightarrow> world \<Rightarrow> (exn + unit) \<times> world" where
  "move src dst w =
     (case shutil_move w (length (moved w)) of
        Some e \<Rightarrow> (Inl e, w\<lparr>moved := moved w @ [(src, dst)]\<rparr>)
      | None \<Rightarrow> (Inr (), w\<lparr>moved := moved w @ [(src, dst)]\<rparr>))"

text \<open>The script of \<^verbatim>\<open>__main__\<close> from the creation of the kicker to the end of the
  \<^verbatim>\<open>try\<close> statement.  What the command line and the build graph query give is a record
  of parameters.\<close>

record params =
  build_count :: int
  bazel_target :: string
  buck_target :: string
  bazel_build :: BuildSys
  buck_build :: BuildSys
  gradle_build :: BuildSys
  source_files :: "path list"

record timings =
  bazel_times :: "real list"
  buck_times :: "real list"
  gradle_times :: "real list"

definition res :: path where
  "res = ''/path/apps-android-wikipedia-copy/app/src/main/res/''"

definition raw :: path where
  "raw = ''/path/apps-android-wikipedia-copy/app/src/main/res/raw/''"

text \<open>The inner loop: every source file but the generated ones is kicked.\<close>

fun kick_files :: "path list \<Rightarrow> world \<Rightarrow> (exn + unit) \<times> world" where
  "kick_files [] w = (Inr (), w)"
| "kick_files (file # files) w =
     (if contains file ''/_generated_databinding/'' then kick_files files w
      else case append_file file w of
             (Inl e, w1) \<Rightarrow> (Inl e, w1)
           | (Inr u, w1) \<Rightarrow> kick_files files w1)"

definition iteration :: "params \<Rightarrow> timings \<Rightarrow> world \<Rightarrow> (exn + timings) \<times> world" where
  "iteration p ts =
     bind_exn (kick_files (source_files p)) (\<lambda>u.
     bind_exn (move (res @ ''resources.properties'') raw) (\<lambda>u.
     bind_exn (build (bazel_build p) ''build'' (Some (bazel_target p)) None) (\<lambda>t1.
     bind_exn (move (raw @ ''resources.properties'') res) (\<lambda>u.
     bind_exn (build (gradle_build p) ''assembleDevRelease'' None None) (\<lambda>t2.
     bind_exn (build (buck_build p) ''build'' (Some (buck_target p)) None) (\<lambda>t3.
       Pair (Inr (ts\<lparr>bazel_times := bazel_times ts @ [t1],
                      gradle_times := gradle_times ts @ [t2],
                      buck_times := buck_times ts @ [t3]\<rparr>))))))))"

text \<open>\<^verbatim>\<open>for _ in range(build_count)\<close>, as a count of the iterations left.\<close>

fun iterations :: "params \<Rightarrow> nat \<Rightarrow> timings \<Rightarrow> world \<Rightarrow> (exn + timings) \<times> world" where
  "iterations p 0 ts w = (Inr ts, w)"
| "iterations p (Suc k) ts w =
     (case iteration p ts w of
        (Inl e, w1) \<Rightarrow> (Inl e, w1)
      | (Inr ts1, w1) \<Rightarrow> iterations p k ts1 w1)"

text \<open>\<^verbatim>\<open>kicker = FunctionKicker()\<close> starts with an empty dirty set; then the \<^verbatim>\<open>try\<close>
  statement.\<close>

definition timed_builds ::
  "(path set \<Rightarrow> path list) \<Rightarrow> params \<Rightarrow> world \<Rightarrow> (exn + timings) \<times> world" where
  "timed_builds iter p w =
     try_finally
       (iterations p (nat (build_count p)) \<lparr>bazel_times = [], buck_times = [], gradle_times = []\<rparr>)
       (cleanup_all_dirty iter)
       (w\<lparr>dirty_files := {}\<rparr>)"

section \<open>Dictionaries\<close>

text \<open>A Python dict keeps its keys in the order of their first insertion; storing under a
  key that is present replaces the value in place.\<close>

fun dict_set :: "'k \<Rightarrow> 'v \<Rightarrow> ('k \<times> 'v) list \<Rightarrow> ('k \<times> 'v) list" where
  "dict_set k v [] = [(k, v)]"
| "dict_set k v ((k', v') # d) = (if k' = k then (k, v) # d else (k', v') # dict_set k v d)"

section \<open>build\_visualiser.py\<close>

text \<open>
  The values that \<^verbatim>\<open>ast.literal_eval\<close> can give.  The parser of Python literals and the
  conversion \<^verbatim>\<open>float(x)\<close> belong to the Python library: \<^verbatim>\<open>read_csv_data\<close> is modelled
  over any two functions \<open>literal_eval\<close> and \<open>py_float\<close> that stand for them.
\<close>

datatype pyval =
    PyNone
  | PyBool bool
  | PyInt int
  | PyFloat real
  | PyStr string
  | PyBytes string
  | PyList "pyval list"
  | PyTuple "pyval list"
  | PySet "pyval list"
  | PyDict "(pyval \<times> pyval) list"

fun is_ValueError :: "exn \<Rightarrow> bool" where
  "is_ValueError (ValueError m) = True"
| "is_ValueError e = False"

text \<open>\<^verbatim>\<open>str.strip()\<close>: the characters below 256 for which \<^verbatim>\<open>str.isspace\<close> holds.\<close>

definition is_space :: "char \<Rightarrow> bool" where
  "is_space c \<longleftrightarrow>
     c \<in> set [CHR 0x09, CHR 0x0A, CHR 0x0B, CHR 0x0C, CHR 0x0D, CHR 0x1C, CHR 0x1D, CHR 0x1E,
              CHR 0x1F, CHR 0x20, CHR 0x85, CHR 0xA0]"

definition strip :: "string \<Rightarrow> string" where
  "strip s = rev (dropWhile is_space (rev (dropWhile is_space s)))"

definition is_hex :: "char \<Rightarrow> bool" where
  "is_hex c \<longleftrightarrow> c \<in> set ''0123456789ABCDEFabcdef''"

text \<open>
  \<^verbatim>\<open>re.match(r"^#([0-9A-Fa-f]{3}|[0-9A-Fa-f]{6})$", color)\<close>.  The \<^verbatim>\<open>$\<close> of a Python
  pattern also matches before a newline that ends the string.
\<close>

definition hex_color_match :: "string \<Rightarrow> bool" where
  "hex_color_match color =
     (let body = (if color \<noteq> [] \<and> last color = CHR 0x0A then butlast color else color)
      in case body of
           [] \<Rightarrow> False
         | c # digits \<Rightarrow>
             c = CHR ''#'' \<and> (length digits = 3 \<or> length digits = 6) \<and> list_all is_hex digits)"

text \<open>\<^verbatim>\<open>[float(x) for x in measurements]\<close>: the first conversion that raises ends it.\<close>

fun map_float :: "(pyval \<Rightarrow> exn + real) \<Rightarrow> pyval list \<Rightarrow> exn + real list" where
  "map_float py_float [] = Inr []"
| "map_float py_float (x # xs) =
     (case py_float x of
        Inl e \<Rightarrow> Inl e
      | Inr r \<Rightarrow>
          (case map_float py_float xs of
             Inl e \<Rightarrow> Inl e
           | Inr rs \<Rightarrow> Inr (r # rs)))"

text \<open>\<^verbatim>\<open>_parse_row\<close>, on the three fields of the row; each \<^verbatim>\<open>sys.exit(1)\<close> raises
  \<^verbatim>\<open>SystemExit(1)\<close>.  The messages printed before it are left out.\<close>

definition parse_row ::
  "(string \<Rightarrow> exn + pyval) \<Rightarrow> (pyval \<Rightarrow> exn + real) \<Rightarrow> string \<times> string \<times> string \<Rightarrow> nat \<Rightarrow>
   exn + (string \<times> string \<times> real list)" where
  "parse_row literal_eval py_float row row_num =
     (let build_system = strip (fst row);
          color = strip (fst (snd row));
          measurements_str = strip (snd (snd row))
      in if build_system = [] then Inl (SystemExit 1)
         else if \<not> hex_color_match color then Inl (SystemExit 1)
         else case (case literal_eval measurements_str of
                      Inl e \<Rightarrow> Inl e
                    | Inr measurements \<Rightarrow>
                        (case measurements of
                           PyList xs \<Rightarrow> map_float py_float xs
                         | _ \<Rightarrow> Inl (ValueError ''measurements must be a list''))) of
                Inr measurements \<Rightarrow> Inr (build_system, color, measurements)
              | Inl e \<Rightarrow>
                  if is_ValueError e \<or> e = SyntaxError then Inl (SystemExit 1) else Inl e)"

text \<open>
  \<^verbatim>\<open>csv.DictReader\<close> with three field names skips the empty rows of the reader, stores
  the fields beyond the third as one list under the key \<^verbatim>\<open>None\<close> and fills the
  missing fields with \<^verbatim>\<open>None\<close>: the number of values of the dict that are not
  \<^verbatim>\<open>None\<close> is 4 for a longer row and the length of the row otherwise.
\<close>

definition non_none_values :: "string list \<Rightarrow> nat" where
  "non_none_values row = (if length row > 3 then 3 + 1 else length row)"

fun read_rows ::
  "(string \<Rightarrow> exn + pyval) \<Rightarrow> (pyval \<Rightarrow> exn + real) \<Rightarrow> string list list \<Rightarrow> nat \<Rightarrow>
   (string \<times> real list) list \<times> (string \<times> string) list \<Rightarrow>
   exn + ((string \<times> real list) list \<times> (string \<times> string) list)" where
  "read_rows literal_eval py_float [] row_num (data, colors) = Inr (data, colors)"
| "read_rows literal_eval py_float (row # rows) row_num (data, colors) =
     (if row = [] then read_rows literal_eval py_float rows row_num (data, colors)
      else if non_none_values row \<noteq> 3 then Inl (SystemExit 1)
      else case parse_row literal_eval py_float (row ! 0, row ! 1, row ! 2) row_num of
             Inl e \<Rightarrow> Inl e
           | Inr (build_system, color, measurements) \<Rightarrow>
               read_rows literal_eval py_float rows (row_num + 1)
                 (dict_set build_system measurements data, dict_set build_system color colors))"

text \<open>\<^verbatim>\<open>read_csv_data\<close>, on the rows that \<^verbatim>\<open>csv.reader\<close> gives for the file, or on no
  file.\<close>

definition read_csv_data ::
  "(string \<Rightarrow> exn + pyval) \<Rightarrow> (pyval \<Rightarrow> exn + real) \<Rightarrow> string list list option \<Rightarrow>
   exn + ((string \<times> real list) list \<times> (string \<times> string) list)" where
  "read_csv_data literal_eval py_float csv_file =
     (case (case csv_file of
              None \<Rightarrow> Inl FileNotFoundError
            | Some rows \<Rightarrow> read_rows literal_eval py_float rows 1 ([], [])) of
        Inl e \<Rightarrow>
          if e = FileNotFoundError then Inl (SystemExit 1)
          else if is_Exception e then Inl (SystemExit 1)
          else Inl e
      | Inr (data, colors) \<Rightarrow>
          if data = [] then Inl (SystemExit 1)
          else (let measurement_counts = map (\<lambda>(build_system, durations). length durations) data
                in if \<not> list_all (\<lambda>count. count = measurement_counts ! 0) measurement_counts
                   then Inl (SystemExit 1)
                   else if measurement_counts ! 0 = 0 then Inl (SystemExit 1)
                   else Inr (data, colors)))"

section \<open>Notions used in the statements\<close>

text \<open>
  The number of bytes that \<^verbatim>\<open>_append_content\<close> adds to a file and that
  \<^verbatim>\<open>_remove_appended_content\<close> takes away: it depends on the extension of the file only,
  since the random part of the content is a fixed number of ASCII letters.
\<close>

definition mutation_length :: "path \<Rightarrow> nat" where
  "mutation_length file =
     (case function_templates (lower (file_ext file)) of
        None \<Rightarrow> 0
      | Some template \<Rightarrow>
          length (encode_utf8 newline) * 2 +
          length (encode_utf8 (template KICK_MARKER (replicate FUNCTION_LENGTH CHR ''a''))))"

definition reverted :: "path \<Rightarrow> node option \<Rightarrow> node option" where
  "reverted file n =
     (case n of
        Some (Regular bytes) \<Rightarrow>
          if validate_file_type file = Inr () \<and> mutation_length file \<le> length bytes
          then Some (Regular (take (length bytes - mutation_length file) bytes))
          else n
      | _ \<Rightarrow> n)"

text \<open>A small file system and an environment in which every build succeeds, for the
  concrete instances of the theorems.\<close>

definition demo_world :: world where
  "demo_world =
     \<lparr>fs = [''app/Foo.java'' \<mapsto> Regular ''class Foo {}'', ''app/Bar.kt'' \<mapsto> Regular ''val x = 1'',
             ''app/tiny.py'' \<mapsto> Regular ''x=1'', ''app/locked.kt'' \<mapsto> ReadOnly ''val y = 2'',
             ''app/Big.kt'' \<mapsto> Regular (replicate 200 CHR ''x'')],
      dirty_files = {},
      stdout = [],
      entropy = (\<lambda>i. 7 * i),
      drawn = 0,
      subprocess_run = (\<lambda>i. Inr \<lparr>returncode = 0, proc_stdout = ''BUILD SUCCESSFUL'', elapsed = 2\<rparr>),
      launched = [],
      shutil_move = (\<lambda>i. None),
      moved = []\<rparr>"

definition dirty_world :: world where
  "dirty_world = demo_world\<lparr>dirty_files := {''app/Gone.java'', ''app/locked.kt'', ''app/tiny.py''}\<rparr>"

text \<open>
  The content that every dirty file would have after its cleanup, and that every other
  file has: the loop of the benchmark keeps it.
\<close>

definition restore :: "world \<Rightarrow> path \<rightharpoonup> node" where
  "restore w = (\<lambda>f. if f \<in> dirty_files w then reverted f (fs w f) else fs w f)"

text \<open>An iterator of Python sets visits each element of a finite set once.\<close>

definition set_iterator :: "('a set \<Rightarrow> 'a list) \<Rightarrow> bool" where
  "set_iterator iter \<longleftrightarrow> (\<forall>S. finite S \<longrightarrow> iterates iter S)"

text \<open>A step from \<open>w\<close> to \<open>w'\<close> keeps that content, and a finite dirty set finite.\<close>

definition kept :: "world \<Rightarrow> world \<Rightarrow> bool" where
  "kept w w' \<longleftrightarrow> restore w' = restore w \<and> (finite (dirty_files w) \<longrightarrow> finite (dirty_files w'))"

text \<open>Every source file that the loop kicks has a supported extension and is a regular
  file.\<close>

definition kickable :: "path list \<Rightarrow> world \<Rightarrow> bool" where
  "kickable files w \<longleftrightarrow>
     list_all (\<lambda>f. contains f ''/_generated_databinding/'' \<or>
                  (validate_file_type f = Inr () \<and> (\<exists>b. restore w f = Some (Regular b)))) files"

text \<open>The durations that \<^verbatim>\<open>build\<close> has printed; the outcomes of \<^verbatim>\<open>subprocess.run\<close> with
  which \<^verbatim>\<open>build\<close> returns, and their durations.\<close>

fun build_times :: "line list \<Rightarrow> real list" where
  "build_times [] = []"
| "build_times (BuildTime s t # ls) = t # build_times ls"
| "build_times (l # ls) = build_times ls"

fun succeeded :: "exn + completed \<Rightarrow> bool" where
  "succeeded (Inr c) = (returncode c = 0)"
| "succeeded (Inl e) = False"

fun elapsed_of :: "exn + completed \<Rightarrow> real" where
  "elapsed_of (Inr c) = elapsed c"
| "elapsed_of (Inl e) = 0"

text \<open>A library function raises nothing but exceptions of class \<^verbatim>\<open>Exception\<close>.\<close>

definition raises_exceptions_only :: "('a \<Rightarrow> exn + 'b) \<Rightarrow> bool" where
  "raises_exceptions_only f \<longleftrightarrow> (\<forall>x e. f x = Inl e \<longrightarrow> is_Exception e)"

text \<open>
  A well-formed record of the measurement file, in the words of the specification: three
  fields, a name that is not empty, a colour that is \<^verbatim>\<open>#\<close> and 3 or 6 hexadecimal
  digits, and measurements that evaluate to a list of which \<^verbatim>\<open>float\<close> converts every
  element; the name and the colour without the white space around them.  A record is
  stored under its name, in the place of an earlier record of that name.
\<close>

definition hex_color :: "string \<Rightarrow> bool" where
  "hex_color color \<longleftrightarrow>
     (\<exists>digits. color = CHR ''#'' # digits \<and> (length digits = 3 \<or> length digits = 6) \<and>
        (\<forall>c \<in> set digits. is_hex c))"

definition float_list :: "(string \<Rightarrow> exn + pyval) \<Rightarrow> (pyval \<Rightarrow> exn + real) \<Rightarrow> string \<Rightarrow> real list option" where
  "float_list literal_eval py_float s =
     (case literal_eval s of
        Inr (PyList xs) \<Rightarrow>
          if list_all (\<lambda>x. case py_float x of Inr r \<Rightarrow> True | Inl e \<Rightarrow> False) xs
          then Some (map (\<lambda>x. case py_float x of Inr r \<Rightarrow> r | Inl e \<Rightarrow> 0) xs)
          else None
      | _ \<Rightarrow> None)"

definition row_ok :: "(string \<Rightarrow> exn + pyval) \<Rightarrow> (pyval \<Rightarrow> exn + real) \<Rightarrow> string list \<Rightarrow> bool" where
  "row_ok literal_eval py_float row \<longleftrightarrow>
     length row = 3 \<and> strip (row ! 0) \<noteq> [] \<and> hex_color (strip (row ! 1)) \<and>
     float_list literal_eval py_float (strip (row ! 2)) \<noteq> None"

definition store_row ::
  "(string \<Rightarrow> exn + pyval) \<Rightarrow> (pyval \<Rightarrow> exn + real) \<Rightarrow> string list \<Rightarrow>
   (string \<times> real list) list \<times> (string \<times> string) list \<Rightarrow>
   (string \<times> real list) list \<times> (string \<times> string) list" where
  "store_row literal_eval py_float row tables =
     (dict_set (strip (row ! 0)) (the (float_list literal_eval py_float (strip (row ! 2)))) (fst tables),
      dict_set (strip (row ! 0)) (strip (row ! 1)) (snd tables))"

text \<open>The ways in which reading ends the process with status 1: \<^verbatim>\<open>sys.exit(1)\<close>, or
  an exception for the handler around the reading loop.\<close>

definition exits :: "exn + 'a \<Rightarrow> bool" where
  "exits r \<longleftrightarrow> (\<exists>e. r = Inl e \<and> (e = SystemExit 1 \<or> is_Exception e))"

text \<open>Parameters, environments and inputs of the concrete instances.\<close>

definition demo_params :: params where
  "demo_params =
     \<lparr>build_count = 3,
      bazel_target = ''//app:app'',
      buck_target = ''root//app:app'',
      bazel_build = \<lparr>build_sys = ''Bazel'', invocation = ''bazel'', working_dir = Some ''/path/project''\<rparr>,
      buck_build = \<lparr>build_sys = ''Buck2'', invocation = ''/Users/b41z33d/.cargo/bin/buck2'', working_dir = None\<rparr>,
      gradle_build = \<lparr>build_sys = ''Gradle'', invocation = ''./gradlew'', working_dir = Some ''/path/project''\<rparr>,
      source_files = [''app/Foo.java'', ''app/_generated_databinding/Gen.java'', ''app/Bar.kt'']\<rparr>"

definition failing_world :: world where
  "failing_world =
     demo_world\<lparr>subprocess_run :=
       (\<lambda>k. if k = 4 then Inr \<lparr>returncode = 1, proc_stdout = ''FAILED'', elapsed = 3\<rparr>
            else Inr \<lparr>returncode = 0, proc_stdout = ''BUILD SUCCESSFUL'', elapsed = 2\<rparr>)\<rparr>"

definition broken_world :: world where
  "broken_world =
     demo_world\<lparr>subprocess_run := (\<lambda>k. Inr \<lparr>returncode = 1, proc_stdout = ''FAILED'', elapsed = 3\<rparr>)\<rparr>"

definition gradle :: BuildSys where
  "gradle = \<lparr>build_sys = ''Gradle'', invocation = ''./gradlew'', working_dir = Some ''/path/project''\<rparr>"

text \<open>Two functions that agree with \<^verbatim>\<open>ast.literal_eval\<close> and \<^verbatim>\<open>float\<close> on the fields
  and values of the instances below.\<close>

definition demo_literal_eval :: "string \<Rightarrow> exn + pyval" where
  "demo_literal_eval s =
     (if s = ''[]'' then Inr (PyList [])
      else if s = ''[1.5, 2.5]'' then Inr (PyList [PyFloat 1.5, PyFloat 2.5])
      else if s = ''[3.5]'' then Inr (PyList [PyFloat 3.5])
      else if s = ''[4, 5]'' then Inr (PyList [PyInt 4, PyInt 5])
      else if s = ''(1.5, 2.5)'' then Inr (PyTuple [PyFloat 1.5, PyFloat 2.5])
      else Inl SyntaxError)"

definition demo_float :: "pyval \<Rightarrow> exn + real" where
  "demo_float v =
     (case v of
        PyFloat r \<Rightarrow> Inr r
      | PyInt i \<Rightarrow> Inr (real_of_int i)
      | PyBool b \<Rightarrow> Inr (if b then 1 else 0)
      | _ \<Rightarrow> Inl TypeError)"

section \<open>The kicker: generated content\<close>

lemma dom_function_templates: "dom function_templates = {''py'', ''java'', ''kt''}"
  by (auto simp: function_templates_def split: if_splits)

lemma validate_file_type_ok_iff:
  "validate_file_type file = Inr () \<longleftrightarrow> lower (file_ext file) \<in> {''py'', ''java'', ''kt''}"
  by (auto simp: validate_file_type_def Let_def dom_function_templates lower_def)

lemma validate_file_type_error:
  "validate_file_type file \<noteq> Inr () \<Longrightarrow> \<exists>msg. validate_file_type file = Inl (ValueError msg)"
  by (auto simp: validate_file_type_def Let_def split: if_splits)

lemma encode_utf8_append: "encode_utf8 (xs @ ys) = encode_utf8 xs @ encode_utf8 ys"
  by (simp add: encode_utf8_def)

lemma encode_utf8_Nil: "encode_utf8 [] = []"
  by (simp add: encode_utf8_def)

lemma encode_utf8_Cons: "encode_utf8 (c # s) = encode_char c @ encode_utf8 s"
  by (simp add: encode_utf8_def)

lemma encode_char_ascii_letters: "c \<in> set ascii_letters \<Longrightarrow> encode_char c = [c]"
  by (auto simp: ascii_letters_def encode_char_def)

lemma encode_utf8_letters: "set s \<subseteq> set ascii_letters \<Longrightarrow> encode_utf8 s = s"
  by (induction s) (simp_all add: encode_utf8_def encode_char_ascii_letters)

lemma choices_letters: "set (fst (choices ascii_letters k w)) \<subseteq> set ascii_letters"
proof -
  have "length ascii_letters > 0" by (simp add: ascii_letters_def)
  then show ?thesis by (auto simp: choices_def)
qed

lemma length_choices: "length (fst (choices population k w)) = k"
  by (simp add: choices_def)

lemma snd_choices: "snd (choices population k w) = w\<lparr>drawn := drawn w + k\<rparr>"
  by (simp add: choices_def)

lemma length_encode_name:
  "length (encode_utf8 (fst (choices ascii_letters k w))) = k"
  by (simp add: encode_utf8_letters choices_letters length_choices)

lemma length_encode_replicate_a: "length (encode_utf8 (replicate k CHR ''a'')) = k"
  by (induction k) (simp_all add: encode_utf8_def encode_char_def)

lemma template_length:
  assumes "function_templates ext = Some template"
  shows "length (encode_utf8 (template KICK_MARKER (fst (choices ascii_letters FUNCTION_LENGTH w)))) =
         length (encode_utf8 (template KICK_MARKER (replicate FUNCTION_LENGTH CHR ''a'')))"
  using assms
  by (auto simp: function_templates_def encode_utf8_append encode_utf8_Cons length_encode_name
      length_encode_replicate_a split: if_splits)

lemma generate_content_valid:
  assumes "validate_file_type file = Inr ()"
  shows "\<exists>content. generate_content file w = (Inr content, w\<lparr>drawn := drawn w + FUNCTION_LENGTH\<rparr>) \<and>
           length (encode_utf8 newline) * 2 + length (encode_utf8 content) = mutation_length file"
proof -
  from assms have "lower (file_ext file) \<in> dom function_templates"
    by (auto simp: validate_file_type_def Let_def split: if_splits)
  then obtain template where t: "function_templates (lower (file_ext file)) = Some template"
    by auto
  show ?thesis
    using assms t template_length [OF t, of w]
    by (simp add: generate_content_def mutation_length_def Let_def split_beta snd_choices)
qed

lemma generate_content_invalid:
  assumes "validate_file_type file \<noteq> Inr ()"
  shows "\<exists>msg. generate_content file w = (Inl (ValueError msg), w)"
  using validate_file_type_error [OF assms] by (auto simp: generate_content_def)

lemma length_encode_wrapped:
  "length (encode_utf8 (newline @ content @ newline)) =
   length (encode_utf8 newline) * 2 + length (encode_utf8 content)"
  by (simp add: encode_utf8_append)

lemma generate_content_frame:
  assumes "generate_content file w = (r, w1)"
  shows "fs w1 = fs w \<and> dirty_files w1 = dirty_files w \<and> stdout w1 = stdout w"
  using assms
  by (auto simp: generate_content_def choices_def Let_def split: sum.splits option.splits)

lemmas ext_eval = file_ext_def splitext_def rfind_def lstrip_def lower_def lower_char_def Let_def

section \<open>The kicker: one cleanup, one append\<close>


text \<open>Whatever the file system holds, the cleanup returns normally, leaves the dirty set
  alone and changes at most the file it was called on.\<close>

lemma remove_appended_content_total:
  "\<exists>w'. remove_appended_content file w = (Inr (), w') \<and>
        dirty_files w' = dirty_files w \<and>
        fs w' = (fs w)(file := reverted file (fs w file)) \<and>
        entropy w' = entropy w \<and> subprocess_run w' = subprocess_run w \<and>
        shutil_move w' = shutil_move w \<and> launched w' = launched w \<and> moved w' = moved w"
proof (cases "validate_file_type file = Inr ()")
  case False
  from generate_content_invalid [OF False, of w] obtain msg where
    "generate_content file w = (Inl (ValueError msg), w)" by blast
  with False show ?thesis
    by (auto simp: remove_appended_content_def remove_appended_body_def print_def reverted_def
        split: option.splits node.splits)
next
  case True
  from generate_content_valid [OF True, of w] obtain content where
    g: "generate_content file w = (Inr content, w\<lparr>drawn := drawn w + FUNCTION_LENGTH\<rparr>)" and
    l: "length (encode_utf8 newline) * 2 + length (encode_utf8 content) = mutation_length file"
    by blast
  show ?thesis
    using True l
    by (auto simp: remove_appended_content_def remove_appended_body_def g Let_def print_def
        reverted_def split: option.splits node.splits)
qed

lemma append_file_regular:
  assumes "validate_file_type file = Inr ()" and "fs w file = Some (Regular bytes)"
    and "file \<notin> dirty_files w"
  shows "\<exists>content w'. append_file file w = (Inr (), w') \<and>
           fs w' = (fs w)(file \<mapsto> Regular (bytes @ encode_utf8 (newline @ content @ newline))) \<and>
           length (encode_utf8 (newline @ content @ newline)) = mutation_length file \<and>
           dirty_files w' = insert file (dirty_files w) \<and> stdout w' = stdout w"
proof -
  from generate_content_valid [OF assms(1), of w] obtain content where
    g: "generate_content file w = (Inr content, w\<lparr>drawn := drawn w + FUNCTION_LENGTH\<rparr>)" and
    l: "length (encode_utf8 newline) * 2 + length (encode_utf8 content) = mutation_length file"
    by blast
  show ?thesis
    using assms l
    by (auto simp: append_file_def g append_content_def append_body_def length_encode_wrapped
        simp del: length_append)
qed

lemma cleanup_total:
  "\<exists>w'. cleanup file w = (Inr (), w') \<and>
        dirty_files w' = dirty_files w \<and>
        fs w' = (fs w)(file := reverted file (fs w file)) \<and>
        entropy w' = entropy w \<and> subprocess_run w' = subprocess_run w \<and>
        shutil_move w' = shutil_move w \<and> launched w' = launched w \<and> moved w' = moved w"
  unfolding cleanup_def by (rule remove_appended_content_total)

lemma reverted_mutated:
  assumes "validate_file_type file = Inr ()" and "length m = mutation_length file"
  shows "reverted file (Some (Regular (bytes @ m))) = Some (Regular bytes)"
  using assms by (simp add: reverted_def)

lemma reverted_other:
  "reverted file n = None \<longleftrightarrow> n = None"
  "reverted file n = Some (ReadOnly b) \<longleftrightarrow> n = Some (ReadOnly b)"
  "reverted file n = Some Directory \<longleftrightarrow> n = Some Directory"
  by (auto simp: reverted_def split: option.splits node.splits if_splits)

lemma append_file_valid:
  assumes "validate_file_type file = Inr ()"
  shows "\<exists>r w'. append_file file w = (r, w') \<and>
           entropy w' = entropy w \<and> subprocess_run w' = subprocess_run w \<and>
           shutil_move w' = shutil_move w \<and> launched w' = launched w \<and> moved w' = moved w \<and>
           (case (if file \<in> dirty_files w then reverted file (fs w file) else fs w file) of
              Some (Regular bytes) \<Rightarrow>
                r = Inr () \<and> dirty_files w' = insert file (dirty_files w) \<and>
                (\<exists>m. length m = mutation_length file \<and> fs w' = (fs w)(file \<mapsto> Regular (bytes @ m)))
            | None \<Rightarrow> r = Inl FileNotFoundError \<and> dirty_files w' = dirty_files w \<and> fs w' = fs w
            | Some (ReadOnly bytes) \<Rightarrow>
                r = Inl (PermissionError file) \<and> dirty_files w' = dirty_files w \<and> fs w' = fs w
            | Some Directory \<Rightarrow>
                r = Inl (IsADirectoryError file) \<and> dirty_files w' = dirty_files w \<and> fs w' = fs w)"
proof -
  define w0 where "w0 = w\<lparr>drawn := drawn w + FUNCTION_LENGTH\<rparr>"
  from generate_content_valid [OF assms, of w] obtain content where
    g: "generate_content file w = (Inr content, w0)" and
    l: "length (encode_utf8 newline) * 2 + length (encode_utf8 content) = mutation_length file"
    unfolding w0_def by blast
  have l': "length (encode_utf8 (newline @ content @ newline)) = mutation_length file"
    using l by (simp only: length_encode_wrapped)
  from remove_appended_content_total [of "file" w0] obtain w1 where
    r: "remove_appended_content file w0 = (Inr (), w1)" and
    r1: "dirty_files w1 = dirty_files w0" "fs w1 = (fs w0)(file := reverted file (fs w0 file))"
      "entropy w1 = entropy w0" "subprocess_run w1 = subprocess_run w0"
      "shutil_move w1 = shutil_move w0" "launched w1 = launched w0" "moved w1 = moved w0"
    by blast
  have w0: "dirty_files w0 = dirty_files w" "fs w0 = fs w" "entropy w0 = entropy w"
    "subprocess_run w0 = subprocess_run w" "shutil_move w0 = shutil_move w"
    "launched w0 = launched w" "moved w0 = moved w"
    by (simp_all add: w0_def)
  define n0 where "n0 = (if file \<in> dirty_files w then reverted file (fs w file) else fs w file)"
  define wb where "wb = (if file \<in> dirty_files w then w1 else w0)"
  have pre: "(if file \<in> dirty_files w0 then remove_appended_content file w0 else (Inr (), w0)) =
             (Inr (), wb)"
    by (simp add: wb_def r w0)
  have wb: "dirty_files wb = dirty_files w" "fs wb = (fs w)(file := n0)" "entropy wb = entropy w"
    "subprocess_run wb = subprocess_run w" "shutil_move wb = shutil_move w"
    "launched wb = launched w" "moved wb = moved w"
    by (auto simp: wb_def n0_def r1 w0)
  have wbf: "fs wb file = n0"
    by (simp add: wb)
  have a: "append_file file w =
           (case append_body file content wb of
              (Inr u', w2) \<Rightarrow> (Inr (), w2)
            | (Inl e, w2) \<Rightarrow>
                if e = FileNotFoundError then (Inl e, print (ErrorNotExist file) w2)
                else if is_IOError e then (Inl e, print (ErrorWriting file e) w2)
                else if is_Exception e then (Inl e, print (ErrorUnexpected e) w2)
                else (Inl e, w2))"
    using assms by (simp add: append_file_def g append_content_def pre)
  have same: "n0 = None \<or> n0 = Some Directory \<or> (\<exists>b. n0 = Some (ReadOnly b)) \<Longrightarrow> fs wb = fs w"
    unfolding wb(2) by (auto simp: n0_def reverted_other split: if_splits)
  note rest = wb(1,3-7)
  show ?thesis
  proof (cases n0)
    case None
    with same have "fs wb = fs w" by simp
    then show ?thesis
      using rest wbf None unfolding a n0_def [symmetric]
      by (simp add: append_body_def print_def)
  next
    case (Some nd)
    show ?thesis
    proof (cases nd)
      case (Regular bytes)
      then show ?thesis
        using wb wbf Some l' unfolding a n0_def [symmetric]
        by (auto simp: append_body_def simp del: length_append
            intro!: exI [of _ "encode_utf8 (newline @ content @ newline)"])
    next
      case (ReadOnly bytes)
      with same Some have "fs wb = fs w" by simp
      then show ?thesis
        using rest wbf Some ReadOnly unfolding a n0_def [symmetric]
        by (simp add: append_body_def print_def)
    next
      case Directory
      with same Some have "fs wb = fs w" by simp
      then show ?thesis
        using rest wbf Some Directory unfolding a n0_def [symmetric]
        by (simp add: append_body_def print_def)
    qed
  qed
qed

section \<open>The kicker: append and cleanup undo each other\<close>









section \<open>The kicker: cleanup of a file that is too small\<close>

text \<open>
  Claim C4.  When the file is shorter than the removal length that the cleanup has just
  recomputed (two newlines and the regenerated content), the cleanup returns normally,
  prints the warning and changes no byte of any file.
\<close>

theorem cleanup_small_file_untouched:
  assumes "generate_content file w = (Inr content, w1)"
    and "fs w file = Some (Regular bytes)"
    and "length bytes < length (encode_utf8 newline) * 2 + length (encode_utf8 content)"
  shows "cleanup file w = (Inr (), print (WarningSmaller file) w1) \<and>
         fs (snd (cleanup file w)) = fs w \<and>
         stdout (snd (cleanup file w)) = stdout w @ [WarningSmaller file]"
proof -
  from generate_content_frame [OF assms(1)] have
    f: "fs w1 = fs w" "stdout w1 = stdout w" by simp_all
  have "cleanup file w = (Inr (), print (WarningSmaller file) w1)"
    using assms(2,3) f
    by (simp add: cleanup_def remove_appended_content_def remove_appended_body_def assms(1) Let_def)
  then show ?thesis
    using f by (simp add: print_def)
qed

lemma generate_content_demo_py:
  "generate_content ''app/tiny.py'' demo_world =
     (Inr (''def __kicked__'' @ fst (choices ascii_letters FUNCTION_LENGTH demo_world) @ ''():'' @ newline @ ''    pass''),
      demo_world\<lparr>drawn := 100\<rparr>)"
  by (simp add: generate_content_def validate_file_type_def ext_eval function_templates_def
      KICK_MARKER_def split_beta snd_choices FUNCTION_LENGTH_def demo_world_def)

theorem cleanup_small_file_untouched_witness:
  "\<exists>content w1.
     generate_content ''app/tiny.py'' demo_world = (Inr content, w1) \<and>
     fs demo_world ''app/tiny.py'' = Some (Regular ''x=1'') \<and>
     length ''x=1'' < length (encode_utf8 newline) * 2 + length (encode_utf8 content) \<and>
     cleanup ''app/tiny.py'' demo_world = (Inr (), print (WarningSmaller ''app/tiny.py'') w1) \<and>
     fs (snd (cleanup ''app/tiny.py'' demo_world)) = fs demo_world \<and>
     stdout (snd (cleanup ''app/tiny.py'' demo_world)) = [WarningSmaller ''app/tiny.py'']"
proof -
  let ?c = "''def __kicked__'' @ fst (choices ascii_letters FUNCTION_LENGTH demo_world) @ ''():'' @ newline @ ''    pass''"
  have h1: "generate_content ''app/tiny.py'' demo_world = (Inr ?c, demo_world\<lparr>drawn := 100\<rparr>)"
    by (rule generate_content_demo_py)
  have h2: "fs demo_world ''app/tiny.py'' = Some (Regular ''x=1'')"
    by (simp add: demo_world_def)
  have h3: "length ''x=1'' < length (encode_utf8 newline) * 2 + length (encode_utf8 ?c)"
    by (simp add: encode_utf8_append encode_utf8_Cons length_encode_name FUNCTION_LENGTH_def)
  have s: "stdout demo_world = []"
    by (simp add: demo_world_def)
  from cleanup_small_file_untouched [OF h1 h2 h3] h1 h2 h3 s show ?thesis
    by auto
qed

section \<open>The kicker: bulk cleanup\<close>

lemma cleanup_all_total:
  "\<exists>w'. cleanup_all files w = (Inr (), w') \<and>
        dirty_files w' = dirty_files w \<and>
        fs w' = fold (\<lambda>f m. m(f := reverted f (m f))) files (fs w) \<and>
        entropy w' = entropy w \<and> subprocess_run w' = subprocess_run w \<and>
        shutil_move w' = shutil_move w \<and> launched w' = launched w \<and> moved w' = moved w"
proof (induction files arbitrary: w)
  case Nil
  show ?case by simp
next
  case (Cons f files)
  from cleanup_total [of f w] obtain w1 where
    c: "cleanup f w = (Inr (), w1)" "dirty_files w1 = dirty_files w"
      "fs w1 = (fs w)(f := reverted f (fs w f))"
      "entropy w1 = entropy w" "subprocess_run w1 = subprocess_run w"
      "shutil_move w1 = shutil_move w" "launched w1 = launched w" "moved w1 = moved w"
    by blast
  from Cons.IH [of w1] c show ?case by auto
qed

lemma fold_reverted:
  "distinct files \<Longrightarrow>
   fold (\<lambda>f m. m(f := reverted f (m f))) files m0 =
   (\<lambda>f. if f \<in> set files then reverted f (m0 f) else m0 f)"
  by (induction files arbitrary: m0) (auto simp: fun_eq_iff)

lemma fs_cleanup_at: "fs (snd (cleanup f w)) f = reverted f (fs w f)"
  using cleanup_total [of f w] by auto

text \<open>
  Claim C5.  \<^verbatim>\<open>cleanup_all_dirty\<close> returns normally whatever the dirty files are (missing,
  read-only, directories), leaves the dirty set empty, and has done to every dirty file
  what one \<^verbatim>\<open>cleanup\<close> of that file does and nothing to any other file.
\<close>

theorem cleanup_all_dirty_clears:
  assumes "iterates iter (dirty_files w)"
  shows "\<exists>w'. cleanup_all_dirty iter w = (Inr (), w') \<and> dirty_files w' = {} \<and>
           fs w' = (\<lambda>f. if f \<in> dirty_files w then fs (snd (cleanup f w)) f else fs w f)"
proof -
  from assms have s: "set (iter (dirty_files w)) = dirty_files w" and
    d: "distinct (iter (dirty_files w))"
    by (simp_all add: iterates_def)
  from cleanup_all_total [of "iter (dirty_files w)" w] obtain w1 where
    c: "cleanup_all (iter (dirty_files w)) w = (Inr (), w1)" and
    f: "fs w1 = fold (\<lambda>f m. m(f := reverted f (m f))) (iter (dirty_files w)) (fs w)"
    by blast
  have "fs w1 = (\<lambda>f. if f \<in> dirty_files w then fs (snd (cleanup f w)) f else fs w f)"
    unfolding f fold_reverted [OF d] s fs_cleanup_at ..
  then show ?thesis
    by (simp add: cleanup_all_dirty_def c)
qed

theorem cleanup_all_dirty_clears_witness:
  "iterates sorted_list_of_set (dirty_files dirty_world) \<and>
   fs dirty_world ''app/Gone.java'' = None \<and>
   fs dirty_world ''app/locked.kt'' = Some (ReadOnly ''val y = 2'') \<and>
   (\<exists>w'. cleanup_all_dirty sorted_list_of_set dirty_world = (Inr (), w') \<and>
      dirty_files w' = {} \<and>
      fs w' = (\<lambda>f. if f \<in> dirty_files dirty_world then fs (snd (cleanup f dirty_world)) f
                    else fs dirty_world f))"
proof -
  have h: "iterates sorted_list_of_set (dirty_files dirty_world)"
    by (simp add: iterates_def dirty_world_def)
  have g: "fs dirty_world ''app/Gone.java'' = None"
    "fs dirty_world ''app/locked.kt'' = Some (ReadOnly ''val y = 2'')"
    by (simp_all add: dirty_world_def demo_world_def)
  from cleanup_all_dirty_clears [OF h] h g show ?thesis
    by blast
qed

section \<open>The kicker: errors of append\<close>

text \<open>
  Claim C6.  For a path with no extension or with an unsupported one, \<^verbatim>\<open>append\<close> raises
  \<^verbatim>\<open>ValueError\<close> and the world is what it was: no file was read or written, the dirty
  set is the same.  For a supported extension and a path that does not exist it
  raises \<^verbatim>\<open>FileNotFoundError\<close> to its caller, with the files and the dirty set as before.
\<close>

theorem append_rejects_unsupported_and_missing:
  "(file_ext file = [] \<or> lower (file_ext file) \<notin> {''py'', ''java'', ''kt''} \<longrightarrow>
      (\<exists>msg. append_file file w = (Inl (ValueError msg), w))) \<and>
   (lower (file_ext file) \<in> {''py'', ''java'', ''kt''} \<and> fs w file = None \<longrightarrow>
      (\<exists>w'. append_file file w = (Inl FileNotFoundError, w') \<and>
            fs w' = fs w \<and> dirty_files w' = dirty_files w))"
proof (intro conjI impI)
  assume u: "file_ext file = [] \<or> lower (file_ext file) \<notin> {''py'', ''java'', ''kt''}"
  have "lower [] \<notin> {''py'', ''java'', ''kt''}"
    by (simp add: lower_def)
  with u have "lower (file_ext file) \<notin> {''py'', ''java'', ''kt''}"
    by metis
  then have "validate_file_type file \<noteq> Inr ()"
    unfolding validate_file_type_ok_iff .
  from validate_file_type_error [OF this] show "\<exists>msg. append_file file w = (Inl (ValueError msg), w)"
    by (auto simp: append_file_def)
next
  assume a: "lower (file_ext file) \<in> {''py'', ''java'', ''kt''} \<and> fs w file = None"
  then have v: "validate_file_type file = Inr ()"
    by (simp add: validate_file_type_ok_iff)
  have "(if file \<in> dirty_files w then reverted file (fs w file) else fs w file) = None"
    using a by (simp add: reverted_def)
  with append_file_valid [OF v, of w]
  show "\<exists>w'. append_file file w = (Inl FileNotFoundError, w') \<and>
            fs w' = fs w \<and> dirty_files w' = dirty_files w"
    by auto
qed

theorem append_rejects_unsupported_and_missing_witness:
  "(file_ext ''README'' = [] \<or> lower (file_ext ''README'') \<notin> {''py'', ''java'', ''kt''}) \<and>
   append_file ''README'' demo_world = (Inl (ValueError ''File must have an extension''), demo_world) \<and>
   (file_ext ''res/layout.xml'' = [] \<or> lower (file_ext ''res/layout.xml'') \<notin> {''py'', ''java'', ''kt''}) \<and>
   (\<exists>msg. append_file ''res/layout.xml'' demo_world = (Inl (ValueError msg), demo_world)) \<and>
   lower (file_ext ''app/Gone.java'') \<in> {''py'', ''java'', ''kt''} \<and>
   fs demo_world ''app/Gone.java'' = None \<and>
   (\<exists>w'. append_file ''app/Gone.java'' demo_world = (Inl FileNotFoundError, w') \<and>
         fs w' = fs demo_world \<and> dirty_files w' = dirty_files demo_world)"
proof -
  have h1: "file_ext ''README'' = []"
    by (simp add: ext_eval)
  have h2: "lower (file_ext ''res/layout.xml'') \<notin> {''py'', ''java'', ''kt''}"
    by (simp add: ext_eval)
  have h3: "lower (file_ext ''app/Gone.java'') \<in> {''py'', ''java'', ''kt''}"
    by (simp add: ext_eval)
  have h4: "fs demo_world ''app/Gone.java'' = None"
    by (simp add: demo_world_def)
  have e: "append_file ''README'' demo_world = (Inl (ValueError ''File must have an extension''), demo_world)"
    using h1 by (simp add: append_file_def validate_file_type_def)
  have a: "\<exists>msg. append_file ''res/layout.xml'' demo_world = (Inl (ValueError msg), demo_world)"
    by (rule append_rejects_unsupported_and_missing
        [of "''res/layout.xml''" demo_world, THEN conjunct1, THEN mp, OF disjI2, OF h2])
  have b: "\<exists>w'. append_file ''app/Gone.java'' demo_world = (Inl FileNotFoundError, w') \<and>
         fs w' = fs demo_world \<and> dirty_files w' = dirty_files demo_world"
    by (rule append_rejects_unsupported_and_missing
        [of "''app/Gone.java''" demo_world, THEN conjunct2, THEN mp, OF conjI, OF h3 h4])
  show ?thesis
    apply (intro conjI)
          apply (rule disjI1, rule h1)
         apply (rule e)
        apply (rule disjI2, rule h2)
       apply (rule a)
      apply (rule h3)
     apply (rule h4)
    apply (rule b)
    done
qed

section \<open>The kicker: cleanup does not look at the dirty set\<close>

text \<open>
  Claim C10.  On a regular file with a supported extension and at least as many bytes as
  the recomputed removal length, \<^verbatim>\<open>cleanup\<close> cuts that many bytes from the end, whether
  the file is in the dirty set or not; no cleanup changes the dirty set, and its result
  and its effect on the files are the same for every dirty set.
\<close>

theorem cleanup_ignores_dirty_set:
  assumes "generate_content file w = (Inr content, w1)"
    and "fs w file = Some (Regular bytes)"
    and "n = length (encode_utf8 newline) * 2 + length (encode_utf8 content)"
    and "n \<le> length bytes"
  shows "cleanup file w =
           (Inr (), w1\<lparr>fs := (fs w)(file \<mapsto> Regular (take (length bytes - n) bytes))\<rparr>) \<and>
         dirty_files (snd (cleanup file' w')) = dirty_files w' \<and>
         fst (cleanup file' (w'\<lparr>dirty_files := D\<rparr>)) = fst (cleanup file' w') \<and>
         fs (snd (cleanup file' (w'\<lparr>dirty_files := D\<rparr>))) = fs (snd (cleanup file' w'))"
proof -
  from generate_content_frame [OF assms(1)] have f: "fs w1 = fs w" by simp
  have 1: "cleanup file w =
           (Inr (), w1\<lparr>fs := (fs w)(file \<mapsto> Regular (take (length bytes - n) bytes))\<rparr>)"
    using assms(2,3,4) f
    by (simp add: cleanup_def remove_appended_content_def remove_appended_body_def assms(1) Let_def)
  from cleanup_total [of file' w'] obtain wa where
    a: "cleanup file' w' = (Inr (), wa)" "dirty_files wa = dirty_files w'"
      "fs wa = (fs w')(file' := reverted file' (fs w' file'))"
    by blast
  from cleanup_total [of file' "w'\<lparr>dirty_files := D\<rparr>"] obtain wb where
    b: "cleanup file' (w'\<lparr>dirty_files := D\<rparr>) = (Inr (), wb)"
      "fs wb = (fs (w'\<lparr>dirty_files := D\<rparr>))(file' := reverted file' (fs (w'\<lparr>dirty_files := D\<rparr>) file'))"
    by blast
  have 2: "dirty_files (snd (cleanup file' w')) = dirty_files w' \<and>
         fst (cleanup file' (w'\<lparr>dirty_files := D\<rparr>)) = fst (cleanup file' w') \<and>
         fs (snd (cleanup file' (w'\<lparr>dirty_files := D\<rparr>))) = fs (snd (cleanup file' w'))"
    by (simp add: a b)
  from 1 2 show ?thesis by (rule conjI)
qed

lemma generate_content_demo_kt:
  "generate_content ''app/Big.kt'' demo_world =
     (Inr (''fun __kicked__'' @ fst (choices ascii_letters FUNCTION_LENGTH demo_world) @ ''() {}''),
      demo_world\<lparr>drawn := 100\<rparr>)"
  by (simp add: generate_content_def validate_file_type_def ext_eval function_templates_def
      KICK_MARKER_def split_beta snd_choices FUNCTION_LENGTH_def demo_world_def)

theorem cleanup_ignores_dirty_set_witness:
  "\<exists>content w1.
     generate_content ''app/Big.kt'' demo_world = (Inr content, w1) \<and>
     fs demo_world ''app/Big.kt'' = Some (Regular (replicate 200 CHR ''x'')) \<and>
     121 = length (encode_utf8 newline) * 2 + length (encode_utf8 content) \<and>
     121 \<le> length (replicate 200 CHR ''x'') \<and>
     ''app/Big.kt'' \<notin> dirty_files demo_world \<and>
     fst (cleanup ''app/Big.kt'' demo_world) = Inr () \<and>
     fs (snd (cleanup ''app/Big.kt'' demo_world)) ''app/Big.kt'' = Some (Regular (replicate 79 CHR ''x'')) \<and>
     dirty_files (snd (cleanup ''app/Big.kt'' demo_world)) = {}"
proof -
  let ?c = "''fun __kicked__'' @ fst (choices ascii_letters FUNCTION_LENGTH demo_world) @ ''() {}''"
  have h1: "generate_content ''app/Big.kt'' demo_world = (Inr ?c, demo_world\<lparr>drawn := 100\<rparr>)"
    by (rule generate_content_demo_kt)
  have h2: "fs demo_world ''app/Big.kt'' = Some (Regular (replicate 200 CHR ''x''))"
    by (simp add: demo_world_def)
  have h3: "121 = length (encode_utf8 newline) * 2 + length (encode_utf8 ?c)"
    by (simp add: encode_utf8_append encode_utf8_Cons encode_utf8_Nil length_encode_name
        FUNCTION_LENGTH_def newline_def encode_char_def)
  have h4: "121 \<le> length (replicate 200 CHR ''x'')"
    by simp
  have d: "dirty_files demo_world = {}"
    by (simp add: demo_world_def)
  from cleanup_ignores_dirty_set [OF h1 h2 h3 h4, of "''app/Big.kt''" demo_world] h1 h2 h3 h4 d
  show ?thesis
    by (intro exI [of _ ?c] exI [of _ "demo_world\<lparr>drawn := 100\<rparr>"]) simp
qed

section \<open>The benchmark loop: cleanup on every exit\<close>

lemma restore_append_file:
  "restore (snd (append_file file w)) = restore w \<and>
   (finite (dirty_files w) \<longrightarrow> finite (dirty_files (snd (append_file file w))))"
proof (cases "validate_file_type file = Inr ()")
  case False
  from validate_file_type_error [OF False] show ?thesis
    by (auto simp: append_file_def)
next
  case True
  from append_file_valid [OF True, of w] obtain r w' where
    a: "append_file file w = (r, w')" and
    c: "case restore w file of
          Some (Regular bytes) \<Rightarrow>
            r = Inr () \<and> dirty_files w' = insert file (dirty_files w) \<and>
            (\<exists>m. length m = mutation_length file \<and> fs w' = (fs w)(file \<mapsto> Regular (bytes @ m)))
        | None \<Rightarrow> r = Inl FileNotFoundError \<and> dirty_files w' = dirty_files w \<and> fs w' = fs w
        | Some (ReadOnly bytes) \<Rightarrow>
            r = Inl (PermissionError file) \<and> dirty_files w' = dirty_files w \<and> fs w' = fs w
        | Some Directory \<Rightarrow>
            r = Inl (IsADirectoryError file) \<and> dirty_files w' = dirty_files w \<and> fs w' = fs w"
    unfolding restore_def by blast
  have "restore w' = restore w \<and> (finite (dirty_files w) \<longrightarrow> finite (dirty_files w'))"
  proof (cases "restore w file")
    case None
    with c show ?thesis by (auto simp: restore_def fun_eq_iff)
  next
    case (Some nd)
    show ?thesis
    proof (cases nd)
      case (Regular bytes)
      with c Some obtain m where
        d: "dirty_files w' = insert file (dirty_files w)" and
        m: "length m = mutation_length file" and
        f: "fs w' = (fs w)(file \<mapsto> Regular (bytes @ m))"
        by auto
      have "restore w' g = restore w g" for g
      proof (cases "g = file")
        case True
        then show ?thesis
          using Some Regular reverted_mutated [OF \<open>validate_file_type file = Inr ()\<close> m, of bytes]
          by (simp add: restore_def d f)
      next
        case False
        then show ?thesis by (simp add: restore_def d f)
      qed
      then show ?thesis using d by (auto simp: fun_eq_iff)
    next
      case (ReadOnly bytes)
      with c Some show ?thesis by (auto simp: restore_def fun_eq_iff)
    next
      case Directory
      with c Some show ?thesis by (auto simp: restore_def fun_eq_iff)
    qed
  qed
  then show ?thesis by (simp add: a)
qed

lemma restore_kick_files:
  "restore (snd (kick_files files w)) = restore w \<and>
   (finite (dirty_files w) \<longrightarrow> finite (dirty_files (snd (kick_files files w))))"
proof (induction files arbitrary: w)
  case Nil
  show ?case by simp
next
  case (Cons f files)
  show ?case
  proof (cases "contains f ''/_generated_databinding/''")
    case True
    with Cons.IH [of w] show ?thesis by simp
  next
    case False
    obtain r w1 where a: "append_file f w = (r, w1)" by (cases "append_file f w")
    from restore_append_file [of f w] a have
      1: "restore w1 = restore w" "finite (dirty_files w) \<longrightarrow> finite (dirty_files w1)"
      by simp_all
    show ?thesis
    proof (cases r)
      case (Inl e)
      with False a 1 show ?thesis by simp
    next
      case (Inr u)
      with False a 1 Cons.IH [of w1] show ?thesis by simp
    qed
  qed
qed

lemma build_frame:
  "fs (snd (build self cmd target args w)) = fs w \<and>
   dirty_files (snd (build self cmd target args w)) = dirty_files w"
  by (simp add: build_def execute_def print_def Let_def split: sum.splits prod.splits)

lemma move_frame:
  "fs (snd (move src dst w)) = fs w \<and> dirty_files (snd (move src dst w)) = dirty_files w"
  by (simp add: move_def split: option.splits)

lemma restore_frame:
  "fs w' = fs w \<Longrightarrow> dirty_files w' = dirty_files w \<Longrightarrow> restore w' = restore w"
  by (auto simp: restore_def fun_eq_iff)

lemma kept_refl: "kept w w"
  by (simp add: kept_def)

lemma kept_trans: "kept w w1 \<Longrightarrow> kept w1 w2 \<Longrightarrow> kept w w2"
  by (simp add: kept_def)

lemma kept_bind_exn:
  assumes "\<And>w. kept w (snd (m w))" and "\<And>x w. kept w (snd (f x w))"
  shows "kept w (snd (bind_exn m f w))"
proof (cases "m w")
  case (Pair r w1)
  with assms(1) [of w] have k: "kept w w1" by simp
  show ?thesis
  proof (cases r)
    case (Inl e)
    with Pair k show ?thesis by (simp add: bind_exn_def)
  next
    case (Inr x)
    with Pair kept_trans [OF k assms(2) [of w1 x]] show ?thesis
      by (simp add: bind_exn_def)
  qed
qed

lemma kept_build: "kept w (snd (build self cmd target args w))"
  using build_frame [of self cmd target args w] restore_frame [of "snd (build self cmd target args w)" w]
  by (simp add: kept_def)

lemma kept_move: "kept w (snd (move src dst w))"
  using move_frame [of src dst w] restore_frame [of "snd (move src dst w)" w]
  by (simp add: kept_def)

lemma kept_kick_files: "kept w (snd (kick_files files w))"
  using restore_kick_files [of files w] by (simp add: kept_def)

lemma kept_iteration: "kept w (snd (iteration p ts w))"
  unfolding iteration_def
  apply (rule kept_bind_exn, rule kept_kick_files)
  apply (rule kept_bind_exn, rule kept_move)
  apply (rule kept_bind_exn, rule kept_build)
  apply (rule kept_bind_exn, rule kept_move)
  apply (rule kept_bind_exn, rule kept_build)
  apply (rule kept_bind_exn, rule kept_build)
  apply (simp add: kept_refl)
  done

lemma kept_iterations: "kept w (snd (iterations p k ts w))"
proof (induction k arbitrary: ts w)
  case 0
  show ?case by (simp add: kept_refl)
next
  case (Suc k)
  obtain r w1 where i: "iteration p ts w = (r, w1)" by (cases "iteration p ts w")
  with kept_iteration [of w p ts] have k1: "kept w w1" by simp
  show ?case
  proof (cases r)
    case (Inl e)
    with i k1 show ?thesis by simp
  next
    case (Inr ts1)
    with i kept_trans [OF k1 Suc.IH [of w1 ts1]] show ?thesis by simp
  qed
qed

lemma cleanup_all_dirty_restores:
  assumes "iterates iter (dirty_files w)"
  shows "\<exists>w'. cleanup_all_dirty iter w = (Inr (), w') \<and> dirty_files w' = {} \<and> fs w' = restore w"
proof -
  from assms have s: "set (iter (dirty_files w)) = dirty_files w" and
    d: "distinct (iter (dirty_files w))"
    by (simp_all add: iterates_def)
  from cleanup_all_total [of "iter (dirty_files w)" w] obtain w1 where
    c: "cleanup_all (iter (dirty_files w)) w = (Inr (), w1)" and
    f: "fs w1 = fold (\<lambda>f m. m(f := reverted f (m f))) (iter (dirty_files w)) (fs w)"
    by blast
  have "fs w1 = restore w"
    unfolding f fold_reverted [OF d] s restore_def ..
  then show ?thesis
    by (simp add: cleanup_all_dirty_def c)
qed

text \<open>
  Claim C2.  However the loop of timed builds ends, with the timings or with an exception
  (of a build, of a move, of an append), \<^verbatim>\<open>cleanup_all_dirty\<close> runs on the world the loop
  has left and returns normally: the dirty set is empty and every file has the content
  it had before the loop.  The outcome of the \<^verbatim>\<open>try\<close> statement is the outcome of the
  loop: an exception is raised again after the cleanup, and no timings are returned
  with it.  In this model the kicker alone changes files, and a write to a file happens
  as a whole or not at all.
\<close>

theorem cleanup_on_every_exit:
  assumes "set_iterator iter"
  shows "\<exists>r w1 w'.
           iterations p (nat (build_count p)) \<lparr>bazel_times = [], buck_times = [], gradle_times = []\<rparr>
             (w\<lparr>dirty_files := {}\<rparr>) = (r, w1) \<and>
           cleanup_all_dirty iter w1 = (Inr (), w') \<and>
           timed_builds iter p w = (r, w') \<and>
           dirty_files w' = {} \<and> fs w' = fs w"
proof -
  define w0 where "w0 = w\<lparr>dirty_files := {}\<rparr>"
  define ts0 where "ts0 = \<lparr>bazel_times = [], buck_times = [], gradle_times = []\<rparr>"
  obtain r w1 where i: "iterations p (nat (build_count p)) ts0 w0 = (r, w1)"
    by (cases "iterations p (nat (build_count p)) ts0 w0")
  from kept_iterations [of w0 p "nat (build_count p)" ts0] i
  have k: "restore w1 = restore w0" "finite (dirty_files w1)"
    by (simp_all add: kept_def w0_def)
  have r0: "restore w0 = fs w"
    by (simp add: restore_def w0_def)
  from assms k(2) have "iterates iter (dirty_files w1)"
    by (simp add: set_iterator_def)
  from cleanup_all_dirty_restores [OF this] obtain w' where
    c: "cleanup_all_dirty iter w1 = (Inr (), w')" "dirty_files w' = {}" "fs w' = restore w1"
    by blast
  have "timed_builds iter p w = (r, w')"
    using i c(1) by (simp add: timed_builds_def try_finally_def w0_def ts0_def)
  with i c k r0 show ?thesis
    unfolding w0_def ts0_def by simp
qed

text \<open>A build whose process ends with a status other than 0 raises.  When the files can
  be kicked and the moves succeed, an iteration returns the three durations if its
  builds succeed, and raises the error of the Gradle build if that build fails after a
  Bazel build that succeeded.\<close>

lemma build_fails:
  assumes "subprocess_run w (length (launched w)) = Inr c" and "returncode c \<noteq> 0"
  shows "fst (build self cmd target args w) =
           Inl (RuntimeError (build_sys self @ '' build failed: '' @ proc_stdout c))"
  using assms by (simp add: build_def execute_def print_def Let_def)

lemma append_file_frame:
  "subprocess_run (snd (append_file f w)) = subprocess_run w \<and>
   shutil_move (snd (append_file f w)) = shutil_move w \<and>
   launched (snd (append_file f w)) = launched w \<and>
   moved (snd (append_file f w)) = moved w"
proof (cases "validate_file_type f = Inr ()")
  case False
  from validate_file_type_error [OF False] show ?thesis
    by (auto simp: append_file_def)
next
  case True
  from append_file_valid [OF True, of w] show ?thesis
    by auto
qed

lemma kick_files_frame:
  "subprocess_run (snd (kick_files files w)) = subprocess_run w \<and>
   shutil_move (snd (kick_files files w)) = shutil_move w \<and>
   launched (snd (kick_files files w)) = launched w \<and>
   moved (snd (kick_files files w)) = moved w"
proof (induction files arbitrary: w)
  case Nil
  show ?case by simp
next
  case (Cons f files)
  obtain r w1 where a: "append_file f w = (r, w1)" by (cases "append_file f w")
  with append_file_frame [of f w] have
    1: "subprocess_run w1 = subprocess_run w" "shutil_move w1 = shutil_move w"
       "launched w1 = launched w" "moved w1 = moved w"
    by simp_all
  show ?case
    using Cons.IH [of w] Cons.IH [of w1] a 1 by (cases r) simp_all
qed

lemma append_file_ok:
  assumes "validate_file_type f = Inr ()" and "restore w f = Some (Regular b)"
  shows "fst (append_file f w) = Inr ()"
  using append_file_valid [OF assms(1), of w] assms(2) unfolding restore_def by auto

lemma kick_files_ok:
  assumes "kickable files w"
  shows "fst (kick_files files w) = Inr ()"
  using assms
proof (induction files arbitrary: w)
  case Nil
  show ?case by simp
next
  case (Cons f files)
  show ?case
  proof (cases "contains f ''/_generated_databinding/''")
    case True
    with Cons show ?thesis by (simp add: kickable_def)
  next
    case False
    with Cons.prems obtain b where v: "validate_file_type f = Inr ()" and
      b: "restore w f = Some (Regular b)"
      by (auto simp: kickable_def)
    obtain r w1 where a: "append_file f w = (r, w1)" by (cases "append_file f w")
    with append_file_ok [OF v b] have r: "r = Inr ()" by simp
    from restore_append_file [of f w] a have "restore w1 = restore w" by simp
    with Cons.prems have "kickable files w1" by (simp add: kickable_def)
    from Cons.IH [OF this] False a r show ?thesis by simp
  qed
qed

lemma kickable_kept: "kept w w' \<Longrightarrow> kickable files w \<Longrightarrow> kickable files w'"
  by (simp add: kickable_def kept_def)

lemma kick_files_result:
  assumes "kickable files w"
  shows "\<exists>w1. kick_files files w = (Inr (), w1) \<and>
           subprocess_run w1 = subprocess_run w \<and> shutil_move w1 = shutil_move w \<and>
           launched w1 = launched w \<and> moved w1 = moved w"
proof -
  obtain r w1 where k: "kick_files files w = (r, w1)" by (cases "kick_files files w")
  with kick_files_ok [OF assms] have "r = Inr ()" by simp
  with k kick_files_frame [of files w] show ?thesis by simp
qed

lemma iteration_success:
  assumes "kickable (source_files p) w"
    and "shutil_move w (length (moved w)) = None"
    and "shutil_move w (Suc (length (moved w))) = None"
    and "subprocess_run w (length (launched w)) = Inr c1" and "returncode c1 = 0"
    and "subprocess_run w (Suc (length (launched w))) = Inr c2" and "returncode c2 = 0"
    and "subprocess_run w (Suc (Suc (length (launched w)))) = Inr c3" and "returncode c3 = 0"
  shows "\<exists>w'. iteration p ts w =
             (Inr (ts\<lparr>bazel_times := bazel_times ts @ [elapsed c1],
                       gradle_times := gradle_times ts @ [elapsed c2],
                       buck_times := buck_times ts @ [elapsed c3]\<rparr>), w') \<and>
           kickable (source_files p) w' \<and>
           length (launched w') = length (launched w) + 3 \<and>
           length (moved w') = length (moved w) + 2 \<and>
           subprocess_run w' = subprocess_run w \<and> shutil_move w' = shutil_move w"
proof -
  from kick_files_result [OF assms(1)] obtain w1 where
    k: "kick_files (source_files p) w = (Inr (), w1)" and
    f: "subprocess_run w1 = subprocess_run w" "shutil_move w1 = shutil_move w"
       "launched w1 = launched w" "moved w1 = moved w"
    by blast
  obtain r w' where i: "iteration p ts w = (r, w')" by (cases "iteration p ts w")
  from kept_iteration [of w p ts] i assms(1) have kk: "kickable (source_files p) w'"
    by (auto intro: kickable_kept)
  have "iteration p ts w =
          (Inr (ts\<lparr>bazel_times := bazel_times ts @ [elapsed c1],
                    gradle_times := gradle_times ts @ [elapsed c2],
                    buck_times := buck_times ts @ [elapsed c3]\<rparr>), w') \<and>
        length (launched w') = length (launched w) + 3 \<and>
        length (moved w') = length (moved w) + 2 \<and>
        subprocess_run w' = subprocess_run w \<and> shutil_move w' = shutil_move w"
    using i assms(2-9) f
    by (auto simp: iteration_def bind_exn_def k move_def build_def execute_def print_def Let_def)
  with kk show ?thesis by blast
qed

lemma iteration_gradle_fails:
  assumes "kickable (source_files p) w"
    and "shutil_move w (length (moved w)) = None"
    and "shutil_move w (Suc (length (moved w))) = None"
    and "subprocess_run w (length (launched w)) = Inr c1" and "returncode c1 = 0"
    and "subprocess_run w (Suc (length (launched w))) = Inr c2" and "returncode c2 \<noteq> 0"
  shows "fst (iteration p ts w) =
           Inl (RuntimeError (build_sys (gradle_build p) @ '' build failed: '' @ proc_stdout c2))"
proof -
  from kick_files_result [OF assms(1)] obtain w1 where
    k: "kick_files (source_files p) w = (Inr (), w1)" and
    f: "subprocess_run w1 = subprocess_run w" "shutil_move w1 = shutil_move w"
       "launched w1 = launched w" "moved w1 = moved w"
    by blast
  show ?thesis
    using assms(2-7) f
    by (simp add: iteration_def bind_exn_def k move_def build_def execute_def print_def Let_def)
qed

lemma set_iterator_sorted_list_of_set:
  "set_iterator (sorted_list_of_set :: path set \<Rightarrow> path list)"
  by (simp add: set_iterator_def iterates_def)

lemma demo_kickable:
  "kickable (source_files demo_params) (failing_world\<lparr>dirty_files := {}\<rparr>)"
  by (simp add: kickable_def demo_params_def failing_world_def demo_world_def restore_def
      validate_file_type_def function_templates_def ext_eval)

lemma demo_run_fails:
  "fst (iterations demo_params (nat (build_count demo_params))
          \<lparr>bazel_times = [], buck_times = [], gradle_times = []\<rparr>
          (failing_world\<lparr>dirty_files := {}\<rparr>)) =
   Inl (RuntimeError ''Gradle build failed: FAILED'')"
proof -
  let ?w0 = "failing_world\<lparr>dirty_files := {}\<rparr>"
  let ?ts0 = "\<lparr>bazel_times = [], buck_times = [], gradle_times = []\<rparr>"
  let ?ok = "\<lparr>returncode = 0, proc_stdout = ''BUILD SUCCESSFUL'', elapsed = 2\<rparr>"
  let ?bad = "\<lparr>returncode = 1, proc_stdout = ''FAILED'', elapsed = 3\<rparr>"
  have o: "launched ?w0 = []" "moved ?w0 = []" "shutil_move ?w0 = (\<lambda>i. None)"
    "subprocess_run ?w0 = (\<lambda>k. if k = 4 then Inr ?bad else Inr ?ok)"
    by (simp_all add: failing_world_def demo_world_def)
  have "\<exists>w'. iteration demo_params ?ts0 ?w0 =
             (Inr (?ts0\<lparr>bazel_times := bazel_times ?ts0 @ [elapsed ?ok],
                       gradle_times := gradle_times ?ts0 @ [elapsed ?ok],
                       buck_times := buck_times ?ts0 @ [elapsed ?ok]\<rparr>), w') \<and>
           kickable (source_files demo_params) w' \<and>
           length (launched w') = length (launched ?w0) + 3 \<and>
           length (moved w') = length (moved ?w0) + 2 \<and>
           subprocess_run w' = subprocess_run ?w0 \<and> shutil_move w' = shutil_move ?w0"
    by (rule iteration_success [OF demo_kickable]) (simp_all add: o)
  then obtain w2 ts1 where
    i1: "iteration demo_params ?ts0 ?w0 = (Inr ts1, w2)" and
    k2: "kickable (source_files demo_params) w2" and
    o2: "length (launched w2) = 3" "length (moved w2) = 2"
      "subprocess_run w2 = (\<lambda>k. if k = 4 then Inr ?bad else Inr ?ok)"
      "shutil_move w2 = (\<lambda>i. None)"
    by (auto simp: o)
  have "fst (iteration demo_params ts1 w2) =
          Inl (RuntimeError (build_sys (gradle_build demo_params) @ '' build failed: '' @ proc_stdout ?bad))"
    by (rule iteration_gradle_fails [OF k2, where ?c1.0 = ?ok]) (simp_all add: o2)
  then have i2: "fst (iteration demo_params ts1 w2) = Inl (RuntimeError ''Gradle build failed: FAILED'')"
    by (simp add: demo_params_def)
  have n: "nat (build_count demo_params) = Suc (Suc (Suc 0))"
    by (simp add: demo_params_def)
  obtain r2 w3 where j: "iteration demo_params ts1 w2 = (r2, w3)"
    by (cases "iteration demo_params ts1 w2")
  with i2 have "r2 = Inl (RuntimeError ''Gradle build failed: FAILED'')"
    by simp
  with i1 j show ?thesis
    unfolding n by simp
qed

text \<open>Three iterations over \<^verbatim>\<open>Foo.java\<close>, \<^verbatim>\<open>Bar.kt\<close> and a generated file that is left
  out; the Gradle build of the second iteration fails.\<close>

theorem cleanup_on_every_exit_witness:
  "set_iterator (sorted_list_of_set :: path set \<Rightarrow> path list) \<and>
   (\<exists>w'. timed_builds sorted_list_of_set demo_params failing_world =
           (Inl (RuntimeError ''Gradle build failed: FAILED''), w') \<and>
         dirty_files w' = {} \<and> fs w' = fs failing_world)"
proof -
  from cleanup_on_every_exit [OF set_iterator_sorted_list_of_set, of demo_params failing_world]
  obtain r w1 w' where
    i: "iterations demo_params (nat (build_count demo_params))
          \<lparr>bazel_times = [], buck_times = [], gradle_times = []\<rparr>
          (failing_world\<lparr>dirty_files := {}\<rparr>) = (r, w1)" and
    t: "timed_builds sorted_list_of_set demo_params failing_world = (r, w')"
      "dirty_files w' = {}" "fs w' = fs failing_world"
    by blast
  from i demo_run_fails have "r = Inl (RuntimeError ''Gradle build failed: FAILED'')"
    by simp
  with t set_iterator_sorted_list_of_set show ?thesis
    by blast
qed

section \<open>The build invoker: repeated builds\<close>

lemma build_times_append: "build_times (xs @ ys) = build_times xs @ build_times ys"
  by (induction xs rule: build_times.induct) simp_all

lemma build_step:
  assumes "build self cmd target args w = (r, w')"
  shows "length (launched w') = Suc (length (launched w)) \<and>
         subprocess_run w' = subprocess_run w \<and>
         (if succeeded (subprocess_run w (length (launched w)))
          then r = Inr (elapsed_of (subprocess_run w (length (launched w)))) \<and>
               build_times (stdout w') =
               build_times (stdout w) @ [elapsed_of (subprocess_run w (length (launched w)))]
          else (\<exists>e. r = Inl e) \<and> build_times (stdout w') = build_times (stdout w))"
proof (cases "subprocess_run w (length (launched w))")
  case (Inl e)
  with assms show ?thesis
    by (auto simp: build_def execute_def print_def Let_def build_times_append)
next
  case (Inr c)
  with assms show ?thesis
    by (auto simp: build_def execute_def print_def Let_def build_times_append split: if_splits)
qed

lemma build_range_result:
  "\<exists>r w'. build_range self cmd n target args idx w = (r, w') \<and>
     (r = Inr () \<longleftrightarrow>
        length (takeWhile succeeded (map (\<lambda>i. subprocess_run w (length (launched w) + i)) [0..<length idx])) = length idx) \<and>
     length (launched w') =
       length (launched w) +
       min (length idx) (Suc (length (takeWhile succeeded
         (map (\<lambda>i. subprocess_run w (length (launched w) + i)) [0..<length idx])))) \<and>
     build_times (stdout w') =
       build_times (stdout w) @
       map elapsed_of (takeWhile succeeded
         (map (\<lambda>i. subprocess_run w (length (launched w) + i)) [0..<length idx]))"
proof (induction idx arbitrary: w)
  case Nil
  show ?case by simp
next
  case (Cons i idx)
  define wp where "wp = print (BuildOf (build_sys self) (int i + 1) n) w"
  have wp: "launched wp = launched w" "subprocess_run wp = subprocess_run w"
    "build_times (stdout wp) = build_times (stdout w)"
    by (simp_all add: wp_def print_def build_times_append)
  obtain r1 w1 where b: "build self cmd target args wp = (r1, w1)"
    by (cases "build self cmd target args wp")
  from build_step [OF b] have
    s: "length (launched w1) = Suc (length (launched w))" "subprocess_run w1 = subprocess_run w"
    and c: "if succeeded (subprocess_run w (length (launched w)))
          then r1 = Inr (elapsed_of (subprocess_run w (length (launched w)))) \<and>
               build_times (stdout w1) =
               build_times (stdout w) @ [elapsed_of (subprocess_run w (length (launched w)))]
          else (\<exists>e. r1 = Inl e) \<and> build_times (stdout w1) = build_times (stdout w)"
    by (simp_all add: wp)
  have u: "map (\<lambda>i. subprocess_run w (length (launched w) + i)) [0..<length (i # idx)] =
           subprocess_run w (length (launched w)) #
           map (\<lambda>i. subprocess_run w1 (length (launched w1) + i)) [0..<length idx]"
    by (simp add: upt_conv_Cons map_Suc_upt [symmetric] s del: upt_Suc)
  show ?case
  proof (cases "succeeded (subprocess_run w (length (launched w)))")
    case False
    with c obtain e where "r1 = Inl e" "build_times (stdout w1) = build_times (stdout w)"
      by auto
    with False b s show ?thesis
      unfolding u by (simp add: wp_def [symmetric])
  next
    case True
    with c have r1: "r1 = Inr (elapsed_of (subprocess_run w (length (launched w))))"
      "build_times (stdout w1) =
       build_times (stdout w) @ [elapsed_of (subprocess_run w (length (launched w)))]"
      by auto
    from Cons.IH [of w1] obtain r w' where
      ih: "build_range self cmd n target args idx w1 = (r, w')"
        "r = Inr () \<longleftrightarrow>
          length (takeWhile succeeded (map (\<lambda>i. subprocess_run w1 (length (launched w1) + i)) [0..<length idx])) = length idx"
        "length (launched w') =
           length (launched w1) +
           min (length idx) (Suc (length (takeWhile succeeded
             (map (\<lambda>i. subprocess_run w1 (length (launched w1) + i)) [0..<length idx]))))"
        "build_times (stdout w') =
           build_times (stdout w1) @
           map elapsed_of (takeWhile succeeded
             (map (\<lambda>i. subprocess_run w1 (length (launched w1) + i)) [0..<length idx]))"
      by blast
    from True b r1 ih s(1) show ?thesis
      unfolding u by (simp add: wp_def [symmetric])
  qed
qed

text \<open>
  Claim C7, as amended.  \<^verbatim>\<open>build_n_times\<close> starts one build after the other until \<open>n\<close>
  builds have succeeded or one has failed: with \<open>k\<close> successes before the first
  failure among the next \<open>n\<close> outcomes it starts \<open>min n (k + 1)\<close> processes, and it
  returns normally exactly when all \<open>n\<close> succeed.  The duration of each build that
  succeeded is printed on a line of its own, in the order of the builds; the method
  adds nothing up and returns no value.
\<close>

theorem build_n_times_until_failure:
  "\<exists>r w'. build_n_times self cmd n target args w = (r, w') \<and>
     (r = Inr () \<longleftrightarrow>
        length (takeWhile succeeded (map (\<lambda>i. subprocess_run w (length (launched w) + i)) [0..<nat n])) = nat n) \<and>
     length (launched w') =
       length (launched w) +
       min (nat n) (Suc (length (takeWhile succeeded
         (map (\<lambda>i. subprocess_run w (length (launched w) + i)) [0..<nat n])))) \<and>
     build_times (stdout w') =
       build_times (stdout w) @
       map elapsed_of (takeWhile succeeded
         (map (\<lambda>i. subprocess_run w (length (launched w) + i)) [0..<nat n]))"
  using build_range_result [of self cmd n target args "[0..<nat n]" w]
  by (simp add: build_n_times_def)

text \<open>As claim C7 is written it fails: called for two builds, the method starts one
  process when the first build fails, and raises.\<close>

theorem build_n_times_counterexample:
  "launched broken_world = [] \<and>
   fst (build_n_times gradle ''assembleDevRelease'' 2 None None broken_world) =
     Inl (RuntimeError ''Gradle build failed: FAILED'') \<and>
   length (launched (snd (build_n_times gradle ''assembleDevRelease'' 2 None None broken_world))) = 1"
  by (simp add: build_n_times_def build_def execute_def print_def Let_def broken_world_def
      demo_world_def gradle_def upt_conv_Cons)

section \<open>Reading the measurement file\<close>

lemma map_of_dict_set: "map_of (dict_set k v d) = (map_of d)(k \<mapsto> v)"
  by (induction d) (auto simp: fun_eq_iff)

lemma strip_last_not_space:
  assumes "strip s \<noteq> []"
  shows "\<not> is_space (last (strip s))"
proof -
  define t where "t = dropWhile is_space (rev (dropWhile is_space s))"
  from assms have t: "t \<noteq> []" by (simp add: strip_def t_def)
  then have "\<not> is_space (hd t)"
    unfolding t_def by (rule hd_dropWhile)
  moreover have "last (strip s) = hd t"
    using t by (simp add: strip_def t_def [symmetric] last_rev)
  ultimately show ?thesis by simp
qed

lemma hex_color_match_strip: "hex_color_match (strip s) \<longleftrightarrow> hex_color (strip s)"
proof (cases "strip s = []")
  case True
  then show ?thesis by (simp add: hex_color_match_def hex_color_def)
next
  case False
  from strip_last_not_space [OF False] have "last (strip s) \<noteq> CHR 0x0A"
    by (auto simp: is_space_def)
  then show ?thesis
    by (auto simp: hex_color_match_def hex_color_def list_all_iff split: list.splits)
qed

lemma map_float_ok:
  "list_all (\<lambda>x. case py_float x of Inr r \<Rightarrow> True | Inl e \<Rightarrow> False) xs \<Longrightarrow>
   map_float py_float xs = Inr (map (\<lambda>x. case py_float x of Inr r \<Rightarrow> r | Inl e \<Rightarrow> 0) xs)"
  by (induction xs) (auto split: sum.splits)

lemma map_float_fails:
  "\<not> list_all (\<lambda>x. case py_float x of Inr r \<Rightarrow> True | Inl e \<Rightarrow> False) xs \<Longrightarrow>
   \<exists>x e. map_float py_float xs = Inl e \<and> py_float x = Inl e"
  by (induction xs) (auto split: sum.splits)

lemma parse_row_accepts:
  assumes "row_ok literal_eval py_float row"
  shows "parse_row literal_eval py_float (row ! 0, row ! 1, row ! 2) n =
         Inr (strip (row ! 0), strip (row ! 1),
              the (float_list literal_eval py_float (strip (row ! 2))))"
proof -
  from assms obtain xs where
    l: "literal_eval (strip (row ! 2)) = Inr (PyList xs)" and
    a: "list_all (\<lambda>x. case py_float x of Inr r \<Rightarrow> True | Inl e \<Rightarrow> False) xs"
    by (auto simp: row_ok_def float_list_def split: sum.splits pyval.splits if_splits)
  from assms have "strip (row ! 0) \<noteq> []" "hex_color_match (strip (row ! 1))"
    by (simp_all add: row_ok_def hex_color_match_strip)
  then show ?thesis
    by (simp add: parse_row_def Let_def l map_float_ok [OF a] float_list_def a)
qed

lemma parse_row_rejects:
  assumes "\<not> row_ok literal_eval py_float row" and "length row = 3"
    and "raises_exceptions_only literal_eval" and "raises_exceptions_only py_float"
  shows "exits (parse_row literal_eval py_float (row ! 0, row ! 1, row ! 2) n)"
proof (cases "strip (row ! 0) \<noteq> [] \<and> hex_color_match (strip (row ! 1))")
  case False
  then show ?thesis
    by (auto simp: parse_row_def Let_def exits_def)
next
  case True
  with assms(1,2) have f: "float_list literal_eval py_float (strip (row ! 2)) = None"
    by (simp add: row_ok_def hex_color_match_strip)
  show ?thesis
  proof (cases "literal_eval (strip (row ! 2))")
    case (Inl e)
    with assms(3) have "is_Exception e" by (auto simp: raises_exceptions_only_def)
    with True Inl show ?thesis
      by (auto simp: parse_row_def Let_def exits_def)
  next
    case (Inr v)
    show ?thesis
    proof (cases "\<exists>xs. v = PyList xs")
      case False
      with True Inr show ?thesis
        by (cases v) (auto simp: parse_row_def Let_def exits_def)
    next
      case True
      then obtain xs where v: "v = PyList xs" ..
      with f Inr have "\<not> list_all (\<lambda>x. case py_float x of Inr r \<Rightarrow> True | Inl e \<Rightarrow> False) xs"
        by (auto simp: float_list_def split: if_splits)
      from map_float_fails [OF this] obtain x e where
        m: "map_float py_float xs = Inl e" "py_float x = Inl e" by blast
      with assms(4) have "is_Exception e" by (auto simp: raises_exceptions_only_def)
      with \<open>strip (row ! 0) \<noteq> [] \<and> hex_color_match (strip (row ! 1))\<close> Inr v m show ?thesis
        by (auto simp: parse_row_def Let_def exits_def)
    qed
  qed
qed

lemma read_rows_accepts:
  assumes "list_all (row_ok literal_eval py_float) (filter (\<lambda>row. row \<noteq> []) rows)"
  shows "read_rows literal_eval py_float rows n tables =
         Inr (fold (store_row literal_eval py_float) (filter (\<lambda>row. row \<noteq> []) rows) tables)"
  using assms
proof (induction rows arbitrary: n tables)
  case Nil
  show ?case by (cases tables) simp
next
  case (Cons row rows)
  obtain data colors where t: "tables = (data, colors)" by (cases tables)
  show ?case
  proof (cases "row = []")
    case True
    with Cons show ?thesis by (simp add: t)
  next
    case False
    with Cons.prems have ok: "row_ok literal_eval py_float row" and
      rest: "list_all (row_ok literal_eval py_float) (filter (\<lambda>row. row \<noteq> []) rows)"
      by simp_all
    from ok have l: "non_none_values row = 3"
      by (simp add: row_ok_def non_none_values_def)
    show ?thesis
      using False l Cons.IH [OF rest]
      by (simp add: t parse_row_accepts [OF ok] store_row_def del: One_nat_def)
  qed
qed

lemma read_rows_rejects:
  assumes "\<not> list_all (row_ok literal_eval py_float) (filter (\<lambda>row. row \<noteq> []) rows)"
    and "raises_exceptions_only literal_eval" and "raises_exceptions_only py_float"
  shows "exits (read_rows literal_eval py_float rows n tables)"
  using assms(1)
proof (induction rows arbitrary: n tables)
  case Nil
  then show ?case by simp
next
  case (Cons row rows)
  obtain data colors where t: "tables = (data, colors)" by (cases tables)
  show ?case
  proof (cases "row = []")
    case True
    with Cons show ?thesis by (simp add: t)
  next
    case False
    show ?thesis
    proof (cases "length row = 3")
      case False
      with \<open>row \<noteq> []\<close> show ?thesis
        by (simp add: t non_none_values_def exits_def)
    next
      case True
      then have l: "non_none_values row = 3" by (simp add: non_none_values_def)
      show ?thesis
      proof (cases "row_ok literal_eval py_float row")
        case False
        from parse_row_rejects [OF False True assms(2,3), of n] \<open>row \<noteq> []\<close> l show ?thesis
          by (auto simp: t exits_def simp del: One_nat_def)
      next
        case ok: True
        with Cons.prems \<open>row \<noteq> []\<close> have
          "\<not> list_all (row_ok literal_eval py_float) (filter (\<lambda>row. row \<noteq> []) rows)"
          by simp
        from Cons.IH [OF this] \<open>row \<noteq> []\<close> l show ?thesis
          by (simp add: t parse_row_accepts [OF ok] del: One_nat_def)
      qed
    qed
  qed
qed

lemma dict_set_not_Nil: "dict_set k v d \<noteq> []"
  by (cases d) (auto split: if_splits)

lemma fold_store_row_Nil:
  "fst (fold (store_row literal_eval py_float) records tables) = [] \<longleftrightarrow>
   records = [] \<and> fst tables = []"
  by (induction records arbitrary: tables) (auto simp: store_row_def dict_set_not_Nil)

lemma uniform_counts:
  assumes "data \<noteq> []"
  shows "list_all (\<lambda>count. count = map (\<lambda>(build_system, durations). length durations) data ! 0)
           (map (\<lambda>(build_system, durations). length durations) data) \<and>
         map (\<lambda>(build_system, durations). length durations) data ! 0 \<noteq> 0 \<longleftrightarrow>
         (\<forall>(name, durations) \<in> set data. durations \<noteq> []) \<and>
         (\<forall>(name, durations) \<in> set data. \<forall>(name', durations') \<in> set data.
            length durations = length durations')"
proof -
  obtain k d ps where data: "data = (k, d) # ps"
    using assms by (cases data) auto
  let ?same = "d \<noteq> [] \<and> (\<forall>q \<in> set ps. length (snd q) = length d)"
  have l: "list_all (\<lambda>count. count = map (\<lambda>(build_system, durations). length durations) data ! 0)
           (map (\<lambda>(build_system, durations). length durations) data) \<and>
         map (\<lambda>(build_system, durations). length durations) data ! 0 \<noteq> 0 \<longleftrightarrow> ?same"
    unfolding data by (auto simp: list_all_iff case_prod_beta)
  have r: "(\<forall>(name, durations) \<in> set data. durations \<noteq> []) \<and>
         (\<forall>(name, durations) \<in> set data. \<forall>(name', durations') \<in> set data.
            length durations = length durations') \<longleftrightarrow> ?same"
  proof
    assume a: "(\<forall>(name, durations) \<in> set data. durations \<noteq> []) \<and>
         (\<forall>(name, durations) \<in> set data. \<forall>(name', durations') \<in> set data.
            length durations = length durations')"
    then have "d \<noteq> []" unfolding data by simp
    moreover have "length (snd q) = length d" if "q \<in> set ps" for q
    proof -
      from that have "(fst q, snd q) \<in> set data" "(k, d) \<in> set data"
        unfolding data by simp_all
      with a show ?thesis by blast
    qed
    ultimately show ?same by blast
  next
    assume s: ?same
    then have "length (snd q) = length d" if "q \<in> set data" for q
      using that unfolding data by auto
    with s show "(\<forall>(name, durations) \<in> set data. durations \<noteq> []) \<and>
         (\<forall>(name, durations) \<in> set data. \<forall>(name', durations') \<in> set data.
            length durations = length durations')"
      by (fastforce simp: case_prod_beta)
  qed
  from l r show ?thesis by (rule trans [OF _ sym])
qed

lemma exits_handled:
  assumes "exits r"
  shows "(case r of
            Inl e \<Rightarrow>
              if e = FileNotFoundError then Inl (SystemExit 1)
              else if is_Exception e then Inl (SystemExit 1)
              else Inl e
          | Inr x \<Rightarrow> f x) = Inl (SystemExit 1)"
  using assms by (auto simp: exits_def)

text \<open>What the tables hold under a name is what the last record of that name gave.\<close>

lemma map_of_fold_store_row:
  "map_of (fst (fold (store_row literal_eval py_float) records tables)) =
   map_of (rev (map (\<lambda>row. (strip (row ! 0),
                         the (float_list literal_eval py_float (strip (row ! 2))))) records) @
           fst tables)"
  by (induction records arbitrary: tables)
    (simp_all add: store_row_def map_of_dict_set map_add_def fun_eq_iff split: option.splits)

text \<open>
  Claim C9, as amended.  Reading ends the process with status 1 when the file does not
  exist and when the rows are rejected.  The rows are accepted exactly when every row
  that is not empty is a well-formed record, there is at least one record, and the
  lists kept for the build systems (a later record replaces an earlier one of the same
  name) are not empty and all of one length; then the two tables of the records are
  returned, durations and colours by name.
\<close>

theorem read_csv_data_accepts_iff:
  assumes "raises_exceptions_only literal_eval" and "raises_exceptions_only py_float"
  shows "read_csv_data literal_eval py_float None = Inl (SystemExit 1) \<and>
         read_csv_data literal_eval py_float (Some rows) =
           (let records = filter (\<lambda>row. row \<noteq> []) rows;
                tables = fold (store_row literal_eval py_float) records ([], [])
            in if list_all (row_ok literal_eval py_float) records \<and> records \<noteq> [] \<and>
                  (\<forall>(name, durations) \<in> set (fst tables). durations \<noteq> []) \<and>
                  (\<forall>(name, durations) \<in> set (fst tables).
                     \<forall>(name', durations') \<in> set (fst tables).
                       length durations = length durations')
               then Inr tables
               else Inl (SystemExit 1))"
proof
  show "read_csv_data literal_eval py_float None = Inl (SystemExit 1)"
    by (simp add: read_csv_data_def)
next
  define records where "records = filter (\<lambda>row. row \<noteq> []) rows"
  define tables where "tables = fold (store_row literal_eval py_float) records ([], [])"
  show "read_csv_data literal_eval py_float (Some rows) =
           (let records = filter (\<lambda>row. row \<noteq> []) rows;
                tables = fold (store_row literal_eval py_float) records ([], [])
            in if list_all (row_ok literal_eval py_float) records \<and> records \<noteq> [] \<and>
                  (\<forall>(name, durations) \<in> set (fst tables). durations \<noteq> []) \<and>
                  (\<forall>(name, durations) \<in> set (fst tables).
                     \<forall>(name', durations') \<in> set (fst tables).
                       length durations = length durations')
               then Inr tables
               else Inl (SystemExit 1))"
  proof (cases "list_all (row_ok literal_eval py_float) records")
    case False
    from read_rows_rejects [OF False [unfolded records_def] assms, of 1 "([], [])"]
    have "read_csv_data literal_eval py_float (Some rows) = Inl (SystemExit 1)"
      unfolding read_csv_data_def option.case by (rule exits_handled)
    with False show ?thesis
      by (simp add: records_def Let_def)
  next
    case True
    from read_rows_accepts [OF True [unfolded records_def], of 1 "([], [])"]
    have r: "read_rows literal_eval py_float rows 1 ([], []) = Inr tables"
      by (simp add: tables_def records_def)
    obtain data colors where t: "tables = (data, colors)" by (cases tables)
    have e: "data = [] \<longleftrightarrow> records = []"
      using fold_store_row_Nil [of literal_eval py_float records "([], [])"]
      by (simp add: tables_def [symmetric] t)
    show ?thesis
    proof (cases "records = []")
      case True
      with e r t show ?thesis
        unfolding read_csv_data_def by (simp add: records_def [symmetric])
    next
      case False
      with e have d: "data \<noteq> []" by simp
      let ?mc = "map (\<lambda>(build_system, durations). length durations) data"
      let ?D = "(\<forall>(name, durations) \<in> set data. durations \<noteq> []) \<and>
                (\<forall>(name, durations) \<in> set data. \<forall>(name', durations') \<in> set data.
                   length durations = length durations')"
      have u: "list_all (\<lambda>count. count = ?mc ! 0) ?mc \<and> ?mc ! 0 \<noteq> 0 \<longleftrightarrow> ?D"
        by (rule uniform_counts [OF d])
      have res: "read_csv_data literal_eval py_float (Some rows) =
          (if \<not> list_all (\<lambda>count. count = ?mc ! 0) ?mc then Inl (SystemExit 1)
           else if ?mc ! 0 = 0 then Inl (SystemExit 1)
           else Inr (data, colors))"
        using d unfolding read_csv_data_def option.case r t sum.case prod.case Let_def
        by (simp only: if_False)
      have rhs: "(let records = filter (\<lambda>row. row \<noteq> []) rows;
                tables = fold (store_row literal_eval py_float) records ([], [])
            in if list_all (row_ok literal_eval py_float) records \<and> records \<noteq> [] \<and>
                  (\<forall>(name, durations) \<in> set (fst tables). durations \<noteq> []) \<and>
                  (\<forall>(name, durations) \<in> set (fst tables).
                     \<forall>(name', durations') \<in> set (fst tables).
                       length durations = length durations')
               then Inr tables
               else Inl (SystemExit 1)) =
            (if ?D then Inr (data, colors) else Inl (SystemExit 1))"
        unfolding Let_def records_def [symmetric] tables_def [symmetric] t fst_conv
        using True False by (simp only: simp_thms)
      show ?thesis
      proof (cases ?D)
        case D: True
        with u have "list_all (\<lambda>count. count = ?mc ! 0) ?mc" "?mc ! 0 \<noteq> 0"
          by blast+
        then have x: "read_csv_data literal_eval py_float (Some rows) = Inr (data, colors)"
          unfolding res by (simp only: simp_thms if_False)
        show ?thesis
          unfolding rhs if_P [OF D] by (rule x)
      next
        case D: False
        with u have "\<not> list_all (\<lambda>count. count = ?mc ! 0) ?mc \<or> ?mc ! 0 = 0"
          by blast
        then have x: "read_csv_data literal_eval py_float (Some rows) = Inl (SystemExit 1)"
          unfolding res by (auto simp only: if_True if_False split: if_splits)
        show ?thesis
          unfolding rhs if_not_P [OF D] by (rule x)
      qed
    qed
  qed
qed

lemma demo_raise_exceptions_only:
  "raises_exceptions_only demo_literal_eval" "raises_exceptions_only demo_float"
  by (auto simp: raises_exceptions_only_def demo_literal_eval_def demo_float_def
      split: if_splits pyval.splits)

lemmas csv_spec_eval =
  row_ok_def hex_color_def float_list_def store_row_def strip_def is_space_def is_hex_def
  demo_literal_eval_def demo_float_def Let_def

theorem read_csv_data_accepts_iff_witness:
  "raises_exceptions_only demo_literal_eval \<and> raises_exceptions_only demo_float \<and>
   read_csv_data demo_literal_eval demo_float None = Inl (SystemExit 1) \<and>
   read_csv_data demo_literal_eval demo_float
     (Some [[''Bazel'', '' #4CAF50'', ''[1.5, 2.5]''], [], [''Buck2'', ''#F90 '', ''[4, 5]'']]) =
   Inr ([(''Bazel'', [1.5, 2.5]), (''Buck2'', [4, 5])],
        [(''Bazel'', ''#4CAF50''), (''Buck2'', ''#F90'')]) \<and>
   read_csv_data demo_literal_eval demo_float (Some [[''Bazel'', ''4CAF50'', ''[1.5, 2.5]'']]) =
   Inl (SystemExit 1) \<and>
   read_csv_data demo_literal_eval demo_float (Some [['' '', ''#4CAF50'', ''[1.5, 2.5]'']]) =
   Inl (SystemExit 1) \<and>
   read_csv_data demo_literal_eval demo_float (Some [[''Bazel'', ''#4CAF50'', ''(1.5, 2.5)'']]) =
   Inl (SystemExit 1) \<and>
   read_csv_data demo_literal_eval demo_float
     (Some [[''Bazel'', ''#4CAF50'', ''[1.5, 2.5]''], [''Buck2'', ''#F90'', ''[3.5]'']]) =
   Inl (SystemExit 1)"
proof -
  note h = demo_raise_exceptions_only
  note t = read_csv_data_accepts_iff [OF h]
  have a: "read_csv_data demo_literal_eval demo_float None = Inl (SystemExit 1)"
    using t by blast
  have b: "read_csv_data demo_literal_eval demo_float
     (Some [[''Bazel'', '' #4CAF50'', ''[1.5, 2.5]''], [], [''Buck2'', ''#F90 '', ''[4, 5]'']]) =
   Inr ([(''Bazel'', [1.5, 2.5]), (''Buck2'', [4, 5])],
        [(''Bazel'', ''#4CAF50''), (''Buck2'', ''#F90'')])"
    unfolding t [THEN conjunct2] by (simp add: csv_spec_eval)
  have c: "read_csv_data demo_literal_eval demo_float (Some [[''Bazel'', ''4CAF50'', ''[1.5, 2.5]'']]) =
   Inl (SystemExit 1)"
    unfolding t [THEN conjunct2] by (simp add: csv_spec_eval)
  have d: "read_csv_data demo_literal_eval demo_float (Some [['' '', ''#4CAF50'', ''[1.5, 2.5]'']]) =
   Inl (SystemExit 1)"
    unfolding t [THEN conjunct2] by (simp add: csv_spec_eval)
  have e: "read_csv_data demo_literal_eval demo_float (Some [[''Bazel'', ''#4CAF50'', ''(1.5, 2.5)'']]) =
   Inl (SystemExit 1)"
    unfolding t [THEN conjunct2] by (simp add: csv_spec_eval)
  have f: "read_csv_data demo_literal_eval demo_float
     (Some [[''Bazel'', ''#4CAF50'', ''[1.5, 2.5]''], [''Buck2'', ''#F90'', ''[3.5]'']]) =
   Inl (SystemExit 1)"
    unfolding t [THEN conjunct2] by (simp add: csv_spec_eval)
  from h a b c d e f show ?thesis
    by (intro conjI)
qed

text \<open>As claim C9 is written it fails twice: records that meet each of its conditions,
  with lists of one length, are rejected when the lists are empty; and two records of
  one name with lists of different lengths are accepted.\<close>

lemmas csv_eval =
  read_csv_data_def parse_row_def non_none_values_def hex_color_match_def strip_def is_space_def
  is_hex_def demo_literal_eval_def demo_float_def Let_def

theorem read_csv_data_counterexample:
  "read_csv_data demo_literal_eval demo_float
     (Some [[''Bazel'', ''#4CAF50'', ''[]''], [''Buck2'', ''#FF9800'', ''[]'']]) =
   Inl (SystemExit 1) \<and>
   read_csv_data demo_literal_eval demo_float
     (Some [[''Bazel'', ''#4CAF50'', ''[1.5, 2.5]''], [''Bazel'', ''#4CAF50'', ''[3.5]'']]) =
   Inr ([(''Bazel'', [3.5])], [(''Bazel'', ''#4CAF50'')])"
  by (simp add: csv_eval)

end
